theory Spec2Isabelle
  imports Main
begin

section \<open>JavaScript values\<close>

text \<open>
  The inputs of \<^verbatim>\<open>src/index.js\<close> are loosely typed: an explicit parameter is always a
  string, a field of the deployment object is any JSON value. A value is therefore one of
  the JSON shapes plus \<^verbatim>\<open>undefined\<close>. Numbers are the integers (JSON numbers with a
  fraction or an exponent, integers that JavaScript prints in exponent notation, and
  integers that a double does not hold exactly, are outside the model). An object is the
  list of its own enumerable properties in the order \<^verbatim>\<open>Object.entries\<close> lists them. Of the
  inherited properties only \<^verbatim>\<open>toString\<close> and \<^verbatim>\<open>valueOf\<close> are modelled, where a value is
  converted to a string; reading any other inherited property (a method of an array or
  of a string, its length, its indices) is outside the model.
\<close>

datatype jsval =
    JUndefined
  | JNull
  | JBool bool
  | JNum int
  | JStr string
  | JArr "jsval list"
  | JObj "(string \<times> jsval) list"

datatype error =
    MissingRequiredInput string  \<comment> \<open>line 126\<close>
  | MissingRepoAlias             \<comment> \<open>line 161\<close>
  | TypeError                    \<comment> \<open>property read on undefined or null, a missing method\<close>
  | ProcessFailed                \<comment> \<open>the promise of exec.exec is rejected\<close>
  | WriteFailed                  \<comment> \<open>writeFile is rejected (line 342)\<close>

text \<open>An exception leaves the rest of the function undone.\<close>

definition bindE :: "error + 'a \<Rightarrow> ('a \<Rightarrow> error + 'b) \<Rightarrow> error + 'b" where
  "bindE m f = (case m of Inl err \<Rightarrow> Inl err | Inr v \<Rightarrow> f v)"

text \<open>\<^verbatim>\<open>Array.prototype.map\<close> with a callback that may throw.\<close>

fun mapE :: "('a \<Rightarrow> error + 'b) \<Rightarrow> 'a list \<Rightarrow> error + 'b list" where
  "mapE f [] = Inr []"
| "mapE f (x # xs) = bindE (f x) (\<lambda>y. bindE (mapE f xs) (\<lambda>ys. Inr (y # ys)))"

text \<open>\<^verbatim>\<open>!!v\<close>\<close>

fun truthy :: "jsval \<Rightarrow> bool" where
  "truthy JUndefined = False"
| "truthy JNull = False"
| "truthy (JBool b) = b"
| "truthy (JNum n) = (n \<noteq> 0)"
| "truthy (JStr s) = (s \<noteq> [])"
| "truthy (JArr xs) = True"
| "truthy (JObj kvs) = True"

text \<open>\<^verbatim>\<open>typeof v\<close>\<close>

fun typeof :: "jsval \<Rightarrow> string" where
  "typeof JUndefined = ''undefined''"
| "typeof JNull = ''object''"
| "typeof (JBool b) = ''boolean''"
| "typeof (JNum n) = ''number''"
| "typeof (JStr s) = ''string''"
| "typeof (JArr xs) = ''object''"
| "typeof (JObj kvs) = ''object''"

text \<open>\<^verbatim>\<open>v[name]\<close>: a TypeError on undefined and null, the own property of an object,
  undefined otherwise. The names read are the input names of the program and \<^verbatim>\<open>url\<close>,
  \<^verbatim>\<open>version\<close> and \<^verbatim>\<open>payload\<close>; of these only \<^verbatim>\<open>values\<close>, read of an array, is an inherited
  property in JavaScript, and that read is outside the model.\<close>

fun getProp :: "jsval \<Rightarrow> string \<Rightarrow> error + jsval" where
  "getProp JUndefined name = Inl TypeError"
| "getProp JNull name = Inl TypeError"
| "getProp (JObj kvs) name = Inr (case map_of kvs name of None \<Rightarrow> JUndefined | Some v \<Rightarrow> v)"
| "getProp v name = Inr JUndefined"

text \<open>Decimal digits of a number, as a template literal prints them.\<close>

fun showNat :: "nat \<Rightarrow> string" where
  "showNat n =
     (if n < 10 then [''0123456789'' ! n]
      else showNat (n div 10) @ [''0123456789'' ! (n mod 10)])"

declare showNat.simps [simp del]

definition showInt :: "int \<Rightarrow> string" where
  "showInt i = (if i < 0 then ''-'' @ showNat (nat (- i)) else showNat (nat i))"

fun join :: "string \<Rightarrow> string list \<Rightarrow> string" where
  "join sep [] = []"
| "join sep [x] = x"
| "join sep (x # y # ys) = x @ sep @ join sep (y # ys)"

text \<open>\<^verbatim>\<open>`${v}`\<close>: the string a template literal puts in place of a value, or the
  TypeError of the conversion. An array prints its elements joined by commas, undefined
  and null elements as the empty string. An object is converted by its \<^verbatim>\<open>toString\<close>: the
  inherited one gives \<^verbatim>\<open>[object Object]\<close>; an own property of that name is a JSON value,
  which cannot be called, and neither an own nor the inherited \<^verbatim>\<open>valueOf\<close> gives a
  primitive then, so the conversion throws.\<close>

function toStr :: "jsval \<Rightarrow> error + string"
  and toStrs :: "jsval list \<Rightarrow> error + string list" where
  "toStr JUndefined = Inr ''undefined''"
| "toStr JNull = Inr ''null''"
| "toStr (JBool b) = Inr (if b then ''true'' else ''false'')"
| "toStr (JNum n) = Inr (showInt n)"
| "toStr (JStr s) = Inr s"
| "toStr (JArr xs) = bindE (toStrs xs) (\<lambda>ss. Inr (join '','' ss))"
| "toStr (JObj kvs) =
     (if ''toString'' \<in> fst ` set kvs then Inl TypeError else Inr ''[object Object]'')"
| "toStrs [] = Inr []"
| "toStrs (x # xs) =
     bindE (if x = JUndefined \<or> x = JNull then Inr [] else toStr x) (\<lambda>s.
     bindE (toStrs xs) (\<lambda>ss. Inr (s # ss)))"
  by pat_completeness auto
termination
  by (relation "measure (\<lambda>a. case a of Inl v \<Rightarrow> size v | Inr vs \<Rightarrow> size_list size vs)")
     auto

text \<open>The conversions of a list of values, one after the other, for their exceptions
  only: what \<^verbatim>\<open>core.debug\<close> prints is not modelled, what its template literals throw
  is.\<close>

definition debugAll :: "jsval list \<Rightarrow> error + unit" where
  "debugAll vs = bindE (mapE toStr vs) (\<lambda>_. Inr ())"

text \<open>\<^verbatim>\<open>Object.entries(v)\<close>: a TypeError on undefined and null, the properties of an
  object, the indexed elements of an array or of a string, nothing for a number or a
  boolean.\<close>

definition indexed :: "jsval list \<Rightarrow> (string \<times> jsval) list" where
  "indexed xs = zip (map showNat [0 ..< length xs]) xs"

fun entries :: "jsval \<Rightarrow> error + (string \<times> jsval) list" where
  "entries JUndefined = Inl TypeError"
| "entries JNull = Inl TypeError"
| "entries (JObj kvs) = Inr kvs"
| "entries (JArr xs) = Inr (indexed xs)"
| "entries (JStr s) = Inr (indexed (map (\<lambda>c. JStr [c]) s))"
| "entries v = Inr []"

section \<open>Naming and normalisation (lines 46--112)\<close>

definition releaseName :: "jsval \<Rightarrow> jsval \<Rightarrow> error + jsval" where
  "releaseName name track =
     (if track \<noteq> JStr ''stable''
      then bindE (toStr name) (\<lambda>n. bindE (toStr track) (\<lambda>t. Inr (JStr (n @ ''-'' @ t))))
      else Inr name)"

definition chartName :: "jsval \<Rightarrow> jsval" where
  "chartName name = (if name = JStr ''app'' then JStr ''/usr/src/charts/app'' else name)"

text \<open>\<^verbatim>\<open>JSON.parse\<close> belongs to the runtime, not to this program: it is a parameter, a
  function that gives the decoded value or \<open>None\<close> where it throws.\<close>

type_synonym parser = "string \<Rightarrow> jsval option"

definition getValues :: "parser \<Rightarrow> jsval \<Rightarrow> jsval" where
  "getValues parse values =
     (case values of
        JStr s \<Rightarrow> (case parse s of Some v \<Rightarrow> v | None \<Rightarrow> values)
      | _ \<Rightarrow> values)"

text \<open>Lines 72--82 and 97--107, the same code in \<^verbatim>\<open>getPlugins\<close> and
  \<^verbatim>\<open>getValueFiles\<close>: a string is parsed, and stands for the one-element list of itself
  where it does not parse; any other value is taken as it is.\<close>

definition decodeList :: "parser \<Rightarrow> jsval \<Rightarrow> jsval" where
  "decodeList parse raw =
     (case raw of
        JStr s \<Rightarrow> (case parse s of Some v \<Rightarrow> v | None \<Rightarrow> JArr [raw])
      | _ \<Rightarrow> raw)"

text \<open>The callback of \<^verbatim>\<open>map\<close>, lines 86--92: no \<^verbatim>\<open>return\<close> is reached for a value that is
  neither a string nor of type object, so the result is undefined.\<close>

definition pluginEntry :: "jsval \<Rightarrow> jsval" where
  "pluginEntry e =
     (if typeof e = ''string'' then JObj [(''url'', e)]
      else if typeof e = ''object'' then e
      else JUndefined)"

text \<open>The callback of \<^verbatim>\<open>filter\<close>, line 93: \<^verbatim>\<open>!!f || typeof(f.url) == 'undefined'\<close>. The
  right operand is evaluated only for a falsy \<open>f\<close>, and reads a property of it.\<close>

definition pluginKeep :: "jsval \<Rightarrow> error + bool" where
  "pluginKeep f =
     (if truthy f then Inr True
      else (case getProp f ''url'' of
              Inl err \<Rightarrow> Inl err
            | Inr u \<Rightarrow> Inr (typeof u = ''undefined'')))"

text \<open>\<^verbatim>\<open>Array.prototype.filter\<close> with a callback that may throw.\<close>

fun filterE :: "('a \<Rightarrow> error + bool) \<Rightarrow> 'a list \<Rightarrow> error + 'a list" where
  "filterE p [] = Inr []"
| "filterE p (x # xs) =
     (case p x of
        Inl err \<Rightarrow> Inl err
      | Inr keep \<Rightarrow>
          (case filterE p xs of
             Inl err \<Rightarrow> Inl err
           | Inr ys \<Rightarrow> Inr (if keep then x # ys else ys)))"

definition getPlugins :: "parser \<Rightarrow> jsval \<Rightarrow> error + jsval list" where
  "getPlugins parse plugins =
     (case decodeList parse plugins of
        JArr pluginList \<Rightarrow> filterE pluginKeep (map pluginEntry pluginList)
      | _ \<Rightarrow> Inr [])"

definition getValueFiles :: "parser \<Rightarrow> jsval \<Rightarrow> jsval list" where
  "getValueFiles parse files =
     (case decodeList parse files of
        JArr fileList \<Rightarrow> filter truthy fileList
      | _ \<Rightarrow> [])"

section \<open>The outside world\<close>

text \<open>
  Every process the program starts goes through \<^verbatim>\<open>exec.exec\<close>. A call is recorded with
  the place in the source that made it, the tool, the argument vector, whether
  \<^verbatim>\<open>ignoreReturnCode\<close> was set, and what the process did: it exited with a code, or it
  could not be started at all.
\<close>

datatype site =
    RepoAdd        \<comment> \<open>line 176\<close>
  | RepoUpdate     \<comment> \<open>line 177\<close>
  | PluginInstall  \<comment> \<open>line 207\<close>
  | PluginCleanup  \<comment> \<open>line 233\<close>
  | CanaryDelete   \<comment> \<open>line 311\<close>
  | ReleaseDelete  \<comment> \<open>line 318\<close>
  | Upgrade        \<comment> \<open>line 323\<close>

datatype outcome = Exited int | NotStarted

record call =
  c_site :: site
  c_tool :: jsval
  c_args :: "jsval list"
  c_ignore :: bool
  c_outcome :: outcome

text \<open>
  What a run reads from outside: the explicit parameters (\<^verbatim>\<open>core.getInput\<close> gives the
  empty string for one that is not supplied), the deployment object of the webhook
  payload (undefined when the run has none), \<^verbatim>\<open>JSON.parse\<close>, the environment variable
  \<^verbatim>\<open>KUBECONFIG_FILE\<close> with whether writing the file succeeds, and the processes: what a
  process does may depend on every call made before it.
\<close>

record env =
  inputs :: "string \<Rightarrow> string"
  deployment :: jsval
  jsonParse :: parser
  kubeconfigFile :: string
  writeFileOk :: bool
  runProcess :: "call list \<Rightarrow> jsval \<Rightarrow> jsval list \<Rightarrow> outcome"

section \<open>The input resolver (lines 114--129)\<close>

text \<open>\<^verbatim>\<open>name.replace("_", "-")\<close>: a string pattern replaces the first occurrence only.\<close>

fun replaceFirst :: "string \<Rightarrow> string" where
  "replaceFirst [] = []"
| "replaceFirst (c # cs) = (if c = CHR ''_'' then CHR ''-'' # cs else c # replaceFirst cs)"

definition getInput :: "env \<Rightarrow> string \<Rightarrow> bool \<Rightarrow> error + jsval" where
  "getInput e name required =
     (let val0 = JStr (inputs e (replaceFirst name));
          fromContext =
            (if truthy (deployment e) then
               (case getProp (deployment e) name of
                  Inl err \<Rightarrow> Inl err
                | Inr field \<Rightarrow>
                    (let val1 = (if truthy field then field else val0) in
                     case getProp (deployment e) ''payload'' of
                       Inl err \<Rightarrow> Inl err
                     | Inr payload \<Rightarrow>
                         (case getProp payload name of
                            Inl err \<Rightarrow> Inl err
                          | Inr pfield \<Rightarrow> Inr (if truthy pfield then pfield else val1))))
             else Inr val0)
      in case fromContext of
           Inl err \<Rightarrow> Inl err
         | Inr val \<Rightarrow>
             if required \<and> \<not> truthy val then Inl (MissingRequiredInput name) else Inr val)"

section \<open>The delete command (lines 138--143)\<close>

definition deleteCmd :: "jsval \<Rightarrow> jsval \<Rightarrow> jsval \<Rightarrow> jsval list" where
  "deleteCmd helm namespace release =
     (if helm = JStr ''helm3'' then [JStr ''delete'', JStr ''-n'', namespace, release]
      else [JStr ''delete'', JStr ''--purge'', release])"

section \<open>The inputs and the argument vector of a deployment (lines 244--304)\<close>

text \<open>The constants of lines 244--257.\<close>

record resolved =
  r_track :: jsval
  r_appName :: jsval
  r_release :: jsval
  r_namespace :: jsval
  r_chart :: jsval
  r_chartVersion :: jsval
  r_values :: jsval
  r_task :: jsval
  r_version :: jsval
  r_valueFiles :: "jsval list"
  r_removeCanary :: jsval
  r_timeout :: jsval
  r_dryRun :: jsval
  r_atomic :: jsval

text \<open>\<^verbatim>\<open>a || b\<close>\<close>

definition orElse :: "jsval \<Rightarrow> jsval \<Rightarrow> jsval" where
  "orElse a b = (if truthy a then a else b)"

text \<open>Lines 244--257, in the order of the source: the release name is built at line 246,
  before the namespace is read. Line 256 reads \<^verbatim>\<open>dry-run\<close> with \<^verbatim>\<open>core.getInput\<close>, every
  other line with \<^verbatim>\<open>getInput\<close>.\<close>

definition deployInputs :: "env \<Rightarrow> error + resolved" where
  "deployInputs e =
     bindE (getInput e ''track'' False) (\<lambda>track0.
     bindE (getInput e ''release'' True) (\<lambda>appName.
     bindE (releaseName appName (orElse track0 (JStr ''stable''))) (\<lambda>release.
     bindE (getInput e ''namespace'' True) (\<lambda>namespace.
     bindE (getInput e ''chart'' True) (\<lambda>chart0.
     bindE (getInput e ''chart_version'' False) (\<lambda>chartVersion.
     bindE (getInput e ''values'' False) (\<lambda>values0.
     bindE (getInput e ''task'' False) (\<lambda>task.
     bindE (getInput e ''version'' False) (\<lambda>version.
     bindE (getInput e ''value_files'' False) (\<lambda>files0.
     bindE (getInput e ''remove_canary'' False) (\<lambda>removeCanary.
     bindE (getInput e ''timeout'' False) (\<lambda>timeout.
     bindE (getInput e ''atomic'' False) (\<lambda>atomic0.
       Inr \<lparr> r_track = orElse track0 (JStr ''stable''),
             r_appName = appName,
             r_release = release,
             r_namespace = namespace,
             r_chart = chartName chart0,
             r_chartVersion = chartVersion,
             r_values = getValues (jsonParse e) values0,
             r_task = task,
             r_version = version,
             r_valueFiles = getValueFiles (jsonParse e) files0,
             r_removeCanary = removeCanary,
             r_timeout = timeout,
             r_dryRun = JStr (inputs e ''dry-run''),
             r_atomic = orElse atomic0 (JBool True) \<rparr>)))))))))))))"

text \<open>Lines 259--273: the template literals convert these constants, in this order.
  \<^verbatim>\<open>JSON.stringify\<close> (lines 265 and 270) does not throw on a JSON value.\<close>

definition debugParams :: "resolved \<Rightarrow> error + unit" where
  "debugParams r =
     debugAll [r_track r, r_release r, r_appName r, r_namespace r, r_chart r,
               r_chartVersion r, r_dryRun r, r_task r, r_version r, r_removeCanary r,
               r_timeout r, r_atomic r]"

text \<open>Lines 276--283.\<close>

definition baseArgs :: "resolved \<Rightarrow> error + jsval list" where
  "baseArgs r =
     bindE (toStr (r_namespace r)) (\<lambda>namespace.
       Inr [JStr ''upgrade'', r_release r, r_chart r, JStr ''--install'', JStr ''--wait'',
            JStr (''--namespace='' @ namespace)])"

text \<open>\<^verbatim>\<open>if (v) args.push(`${flag}${v}`)\<close>\<close>

definition flagIf :: "jsval \<Rightarrow> string \<Rightarrow> error + jsval list" where
  "flagIf v flag =
     (if truthy v then bindE (toStr v) (\<lambda>s. Inr [JStr (flag @ s)]) else Inr [])"

text \<open>Lines 285--289.\<close>

definition optionArgs :: "resolved \<Rightarrow> error + jsval list" where
  "optionArgs r =
     bindE (flagIf (r_appName r) ''--set=app.name='') (\<lambda>name.
     bindE (flagIf (r_version r) ''--set=app.version='') (\<lambda>version.
     bindE (flagIf (r_chartVersion r) ''--version='') (\<lambda>chartVersion.
     bindE (flagIf (r_timeout r) ''--timeout='') (\<lambda>timeout.
       Inr ((if truthy (r_dryRun r) then [JStr ''--dry-run''] else [])
            @ name @ version @ chartVersion @ timeout)))))"

text \<open>Line 291.\<close>

definition fileArgs :: "jsval list \<Rightarrow> error + jsval list" where
  "fileArgs valueFiles = mapE (\<lambda>f. bindE (toStr f) (\<lambda>s. Inr (JStr (''-f '' @ s)))) valueFiles"

text \<open>Line 292, after \<^verbatim>\<open>Object.entries\<close>.\<close>

definition setArgs :: "(string \<times> jsval) list \<Rightarrow> error + jsval list" where
  "setArgs kvs =
     mapE (\<lambda>(k, v). bindE (toStr v) (\<lambda>s. Inr (JStr (''--set '' @ k @ ''='' @ s)))) kvs"

text \<open>Lines 297--299.\<close>

definition canaryArgs :: "resolved \<Rightarrow> jsval list" where
  "canaryArgs r =
     (if r_track r = JStr ''canary''
      then [JStr ''--set=service.enabled=false'', JStr ''--set=ingress.enabled=false'']
      else [])"

text \<open>Lines 302--304: \<^verbatim>\<open>atomic === true\<close> holds for the boolean only.\<close>

definition atomicArgs :: "resolved \<Rightarrow> jsval list" where
  "atomicArgs r = (if r_atomic r = JBool True then [JStr ''--atomic''] else [])"

text \<open>Lines 276--304: the argument vector of the upgrade, or the TypeError of a
  conversion or of \<^verbatim>\<open>Object.entries\<close>.\<close>

definition deployArgs :: "resolved \<Rightarrow> error + jsval list" where
  "deployArgs r =
     bindE (baseArgs r) (\<lambda>base.
     bindE (optionArgs r) (\<lambda>options.
     bindE (fileArgs (r_valueFiles r)) (\<lambda>files.
     bindE (entries (r_values r)) (\<lambda>kvs.
     bindE (setArgs kvs) (\<lambda>sets.
       Inr (base @ options @ files @ sets @ canaryArgs r @ atomicArgs r))))))"

text \<open>Lines 310--311: \<^verbatim>\<open>`${appName}-canary`\<close>\<close>

definition canaryName :: "jsval \<Rightarrow> error + jsval" where
  "canaryName appName = bindE (toStr appName) (\<lambda>s. Inr (JStr (s @ ''-canary'')))"

section \<open>Effects\<close>

text \<open>
  What a run does to the outside: the processes it started, in order; the calls of
  \<^verbatim>\<open>status\<close> and the requests it sent to the deployment-status service; what
  \<^verbatim>\<open>core.error\<close> logged; and the error handed to \<^verbatim>\<open>core.setFailed\<close>. The calls of
  \<^verbatim>\<open>core.debug\<close> are not modelled.
\<close>

datatype logged =
    PluginUrlMissing  \<comment> \<open>line 191\<close>
  | CleanupExit int   \<comment> \<open>line 234\<close>
  | Thrown error      \<comment> \<open>line 354\<close>

record world =
  trace :: "call list"
  statuses :: "string list"
  notified :: "string list"
  errorLog :: "logged list"
  failed :: "error option"

definition world0 :: world where
  "world0 = \<lparr> trace = [], statuses = [], notified = [], errorLog = [], failed = None \<rparr>"

text \<open>An asynchronous function: it changes the world and returns a value or throws.\<close>

type_synonym 'a action = "world \<Rightarrow> world \<times> (error + 'a)"

definition ok :: "'a \<Rightarrow> 'a action" where
  "ok v w = (w, Inr v)"

definition raise :: "error \<Rightarrow> 'a action" where
  "raise err w = (w, Inl err)"

definition liftE :: "error + 'a \<Rightarrow> 'a action" where
  "liftE m w = (w, m)"

definition andThen :: "'a action \<Rightarrow> ('a \<Rightarrow> 'b action) \<Rightarrow> 'b action" where
  "andThen a f w = (case a w of (w1, Inl err) \<Rightarrow> (w1, Inl err) | (w1, Inr v) \<Rightarrow> f v w1)"

definition discard :: "'a action \<Rightarrow> unit action" where
  "discard a = andThen a (\<lambda>_. ok ())"

definition logError :: "logged \<Rightarrow> unit action" where
  "logError l w = (w\<lparr>errorLog := errorLog w @ [l]\<rparr>, Inr ())"

text \<open>\<^verbatim>\<open>await exec.exec(tool, args, {ignoreReturnCode})\<close>: the promise is rejected when the
  process cannot be started, and when it exits with a non-zero code unless
  \<^verbatim>\<open>ignoreReturnCode\<close> is set; otherwise it resolves to the exit code.\<close>

definition exec :: "env \<Rightarrow> site \<Rightarrow> jsval \<Rightarrow> jsval list \<Rightarrow> bool \<Rightarrow> int action" where
  "exec e s tool args ignoreReturnCode w =
     (let out = runProcess e (trace w) tool args;
          w1 = w\<lparr>trace := trace w @
                 [\<lparr>c_site = s, c_tool = tool, c_args = args,
                   c_ignore = ignoreReturnCode, c_outcome = out\<rparr>]\<rparr>
      in case out of
           NotStarted \<Rightarrow> (w1, Inl ProcessFailed)
         | Exited code \<Rightarrow>
             if code \<noteq> 0 \<and> \<not> ignoreReturnCode then (w1, Inl ProcessFailed)
             else (w1, Inr code))"

text \<open>Lines 18--44. Nothing is sent without a token or without a deployment; a request
  that fails is caught and logged as a warning, so \<^verbatim>\<open>status\<close> never throws.\<close>

definition status :: "env \<Rightarrow> string \<Rightarrow> world \<Rightarrow> world" where
  "status e state w =
     (let w1 = w\<lparr>statuses := statuses w @ [state]\<rparr> in
      if inputs e ''token'' = [] \<or> \<not> truthy (deployment e) then w1
      else w1\<lparr>notified := notified w1 @ [state]\<rparr>)"

section \<open>Adding a repository (lines 148--181)\<close>

definition addRepo :: "env \<Rightarrow> jsval \<Rightarrow> unit action" where
  "addRepo e helm =
     andThen (liftE (getInput e ''repo'' False)) (\<lambda>repo.
     andThen (liftE (getInput e ''repo-alias'' False)) (\<lambda>repoAlias.
     andThen (liftE (getInput e ''repo-username'' False)) (\<lambda>repoUsername.
     andThen (liftE (getInput e ''repo-password'' False)) (\<lambda>repoPassword.
     andThen (liftE (debugAll [repo, repoAlias, repoUsername, repoPassword])) (\<lambda>_.
       if repo \<noteq> JStr [] then
         if repoAlias = JStr [] then raise MissingRepoAlias
         else
           andThen (liftE (flagIf repoUsername ''--username='')) (\<lambda>username.
           andThen (liftE (flagIf repoPassword ''--password='')) (\<lambda>password.
           andThen (exec e RepoAdd helm
                     ([JStr ''repo'', JStr ''add'', repoAlias, repo] @ username @ password)
                     False) (\<lambda>_.
           andThen (exec e RepoUpdate helm [JStr ''repo'', JStr ''update''] False) (\<lambda>_.
             ok ()))))
       else ok ())))))"

section \<open>Installing the plugins (lines 186--236)\<close>

text \<open>\<^verbatim>\<open>String.prototype.trim\<close>, for the white space of ASCII; the other white space of
  Unicode is outside the model.\<close>

definition isSpace :: "char \<Rightarrow> bool" where
  "isSpace c = (c \<in> set [CHR '' '', CHR 0x09, CHR 0x0A, CHR 0x0B, CHR 0x0C, CHR 0x0D])"

definition trim :: "string \<Rightarrow> string" where
  "trim s = rev (dropWhile isSpace (rev (dropWhile isSpace s)))"

text \<open>\<^verbatim>\<open>.replace(/\/+$/g, '')\<close>\<close>

definition stripSlashes :: "string \<Rightarrow> string" where
  "stripSlashes s = rev (dropWhile (\<lambda>c. c = CHR ''/'') (rev s))"

text \<open>\<^verbatim>\<open>.replace(/[:/]+/g, '-')\<close>\<close>

definition isSep :: "char \<Rightarrow> bool" where
  "isSep c = (c = CHR '':'' \<or> c = CHR ''/'')"

function dashRuns :: "string \<Rightarrow> string" where
  "dashRuns [] = []"
| "dashRuns (c # cs) =
     (if isSep c then CHR ''-'' # dashRuns (dropWhile isSep cs) else c # dashRuns cs)"
  by pat_completeness auto
termination
  by (relation "measure length") (auto simp: less_Suc_eq_le length_dropWhile_le)

definition pluginDir :: string where
  "pluginDir = ''/root/.helm/helm/plugins/''"

text \<open>Line 215. A value that is not a string has no method \<^verbatim>\<open>trim\<close>.\<close>

definition cloneDir :: "jsval \<Rightarrow> error + string" where
  "cloneDir url =
     (case url of
        JStr s \<Rightarrow> Inr (pluginDir @ dashRuns (stripSlashes (trim s)))
      | _ \<Rightarrow> Inl TypeError)"

text \<open>The loop of lines 189--235. Line 195 converts the plugin itself to a string. The
  \<^verbatim>\<open>listener\<close> of line 227 is not an option of \<^verbatim>\<open>exec.exec\<close> and is never called.\<close>

fun installEach :: "env \<Rightarrow> jsval \<Rightarrow> jsval list \<Rightarrow> jsval action" where
  "installEach e helm [] = ok JUndefined"
| "installEach e helm (plugin # rest) =
     andThen (liftE (getProp plugin ''url'')) (\<lambda>url.
       if \<not> truthy url \<or> typeof url = ''undefined'' then
         andThen (logError PluginUrlMissing) (\<lambda>_. installEach e helm rest)
       else
         andThen (liftE (debugAll [plugin])) (\<lambda>_.
         andThen (liftE (getProp plugin ''version'')) (\<lambda>version.
         andThen (liftE (flagIf version ''--version '')) (\<lambda>versionArg.
         andThen (exec e PluginInstall helm
                   ([JStr ''plugin'', JStr ''install'', url] @ versionArg) False) (\<lambda>error.
           if error \<noteq> 0 then ok (JNum error)
           else
             andThen (liftE (cloneDir url)) (\<lambda>clone_dir.
             andThen (exec e PluginCleanup (JStr ''rm'')
                       [JStr ''-rf'', JStr clone_dir] True) (\<lambda>ec.
             andThen (logError (CleanupExit ec)) (\<lambda>_.
               installEach e helm rest))))))))"

definition installPlugins :: "env \<Rightarrow> jsval \<Rightarrow> jsval action" where
  "installPlugins e helm =
     andThen (liftE (getInput e ''plugins'' False)) (\<lambda>raw.
     andThen (liftE (getPlugins (jsonParse e) raw)) (\<lambda>plugins.
       installEach e helm plugins))"

section \<open>Deploying the release (lines 241--324)\<close>

definition deploy :: "env \<Rightarrow> jsval \<Rightarrow> int action" where
  "deploy e helm =
     andThen (liftE (deployInputs e)) (\<lambda>r.
     andThen (liftE (debugParams r)) (\<lambda>_.
     andThen (liftE (deployArgs r)) (\<lambda>args.
     andThen (if truthy (r_removeCanary r)
              then andThen (liftE (canaryName (r_appName r))) (\<lambda>canary.
                     discard (exec e CanaryDelete helm
                       (deleteCmd helm (r_namespace r) canary) True))
              else ok ()) (\<lambda>_.
       if r_task r = JStr ''remove''
       then exec e ReleaseDelete helm (deleteCmd helm (r_namespace r) (r_release r)) True
       else exec e Upgrade helm args False))))"

section \<open>The run (lines 329--358)\<close>

text \<open>The loop of lines 348--350 over \<^verbatim>\<open>[addRepo, installPlugins, deploy]\<close>: what a command
  returns is not looked at.\<close>

fun runCommands :: "(jsval \<Rightarrow> unit action) list \<Rightarrow> jsval \<Rightarrow> unit action" where
  "runCommands [] helm = ok ()"
| "runCommands (command # rest) helm = andThen (command helm) (\<lambda>_. runCommands rest helm)"

definition commands :: "env \<Rightarrow> (jsval \<Rightarrow> unit action) list" where
  "commands e =
     [\<lambda>helm. discard (addRepo e helm),
      \<lambda>helm. discard (installPlugins e helm),
      \<lambda>helm. discard (deploy e helm)]"

text \<open>The body of \<^verbatim>\<open>try\<close> after the first status, lines 335--350; line 346 converts the
  tool to a string.\<close>

definition runBody :: "env \<Rightarrow> unit action" where
  "runBody e =
     andThen (if kubeconfigFile e \<noteq> []
              then (if writeFileOk e then ok () else raise WriteFailed)
              else ok ()) (\<lambda>_.
     andThen (liftE (getInput e ''helm'' False)) (\<lambda>helm0.
     andThen (liftE (debugAll [orElse helm0 (JStr ''helm3'')])) (\<lambda>_.
       runCommands (commands e) (orElse helm0 (JStr ''helm3'')))))"

definition run :: "env \<Rightarrow> world" where
  "run e =
     (case runBody e (status e ''pending'' world0) of
        (w, Inr _) \<Rightarrow> status e ''success'' w
      | (w, Inl err) \<Rightarrow>
          status e ''failure'' (w\<lparr>errorLog := errorLog w @ [Thrown err], failed := Some err\<rparr>))"

section \<open>Reading a trace\<close>

text \<open>A call fails when the promise of \<^verbatim>\<open>exec.exec\<close> is rejected.\<close>

definition rejected :: "call \<Rightarrow> bool" where
  "rejected c =
     (case c_outcome c of NotStarted \<Rightarrow> True | Exited code \<Rightarrow> code \<noteq> 0 \<and> \<not> c_ignore c)"

text \<open>The calls a function added: only the last may have failed, and then the function
  threw.\<close>

definition quiet :: "call list \<Rightarrow> error + 'a \<Rightarrow> bool" where
  "quiet ext res =
     ((\<forall>c \<in> set (butlast ext). \<not> rejected c)
      \<and> (ext \<noteq> [] \<and> rejected (last ext) \<longrightarrow> res = Inl ProcessFailed))"

text \<open>What only \<^verbatim>\<open>run\<close> itself touches.\<close>

definition frame :: "world \<Rightarrow> world \<Rightarrow> bool" where
  "frame w w' =
     (statuses w' = statuses w \<and> notified w' = notified w \<and> failed w' = failed w)"

text \<open>A function that starts processes at the places \<open>S\<close> of the source only, and a plugin
  install never with \<^verbatim>\<open>ignoreReturnCode\<close>.\<close>

definition strict :: "call list \<Rightarrow> bool" where
  "strict ext = (\<forall>c \<in> set ext. c_site c = PluginInstall \<longrightarrow> \<not> c_ignore c)"

definition steps :: "site set \<Rightarrow> 'a action \<Rightarrow> bool" where
  "steps S a =
     (\<forall>w w' res. a w = (w', res) \<longrightarrow>
        (\<exists>ext. trace w' = trace w @ ext \<and> c_site ` set ext \<subseteq> S \<and> quiet ext res
               \<and> strict ext)
        \<and> frame w w')"

definition setupSites :: "site set" where
  "setupSites = {RepoAdd, RepoUpdate, PluginInstall, PluginCleanup}"

definition deploySites :: "site set" where
  "deploySites = {CanaryDelete, ReleaseDelete, Upgrade}"

section \<open>Concrete inputs\<close>

text \<open>The explicit parameters of a workflow step, as \<^verbatim>\<open>core.getInput\<close> reads them.\<close>

definition inputsOf :: "(string \<times> string) list \<Rightarrow> string \<Rightarrow> string" where
  "inputsOf kvs name = (case map_of kvs name of None \<Rightarrow> [] | Some v \<Rightarrow> v)"

text \<open>A parser that knows one text, and throws on every other.\<close>

definition parserOf :: "string \<Rightarrow> jsval \<Rightarrow> parser" where
  "parserOf text v = (\<lambda>s. if s = text then Some v else None)"

text \<open>A step with \<^verbatim>\<open>dry-run\<close> as a parameter, and a deployment that carries the field at
  both levels, under both spellings.\<close>

definition dryRunEnv :: env where
  "dryRunEnv =
     \<lparr> inputs = inputsOf [(''release'', ''web''), (''namespace'', ''prod''), (''chart'', ''app''),
                          (''dry-run'', ''param'')],
       deployment = JObj [(''dry-run'', JStr ''ctx''), (''dry_run'', JStr ''ctx''),
                          (''payload'', JObj [(''dry-run'', JStr ''ctx''),
                                               (''dry_run'', JStr ''ctx'')])],
       jsonParse = (\<lambda>s. None),
       kubeconfigFile = [],
       writeFileOk = True,
       runProcess = (\<lambda>history tool args. Exited 0) \<rparr>"

text \<open>A step whose deployment overrides \<^verbatim>\<open>task\<close> at both levels and \<^verbatim>\<open>namespace\<close> at the
  object level only.\<close>

definition overrideEnv :: env where
  "overrideEnv =
     \<lparr> inputs = inputsOf [(''release'', ''web''), (''namespace'', ''prod''), (''chart'', ''app''),
                          (''task'', ''deploy'')],
       deployment = JObj [(''namespace'', JStr ''staging''), (''task'', JStr ''noop''),
                          (''payload'', JObj [(''task'', JStr ''remove''),
                                               (''namespace'', JStr [])])],
       jsonParse = (\<lambda>s. None),
       kubeconfigFile = [],
       writeFileOk = True,
       runProcess = (\<lambda>history tool args. Exited 0) \<rparr>"

text \<open>A step with \<^verbatim>\<open>atomic: true\<close>, and one whose deployment payload sets atomic to
  false.\<close>

definition atomicEnv :: env where
  "atomicEnv =
     \<lparr> inputs = inputsOf [(''release'', ''web''), (''namespace'', ''prod''), (''chart'', ''app''),
                          (''atomic'', ''true'')],
       deployment = JUndefined,
       jsonParse = (\<lambda>s. None),
       kubeconfigFile = [],
       writeFileOk = True,
       runProcess = (\<lambda>history tool args. Exited 0) \<rparr>"

definition atomicFalseEnv :: env where
  "atomicFalseEnv =
     \<lparr> inputs = inputsOf [(''release'', ''web''), (''namespace'', ''prod''), (''chart'', ''app'')],
       deployment = JObj [(''payload'', JObj [(''atomic'', JBool False)])],
       jsonParse = (\<lambda>s. None),
       kubeconfigFile = [],
       writeFileOk = True,
       runProcess = (\<lambda>history tool args. Exited 0) \<rparr>"

text \<open>A canary step with a value file and string-encoded values, and what it resolves
  to.\<close>

definition valuesEnv :: env where
  "valuesEnv =
     \<lparr> inputs = inputsOf [(''release'', ''web''), (''namespace'', ''prod''), (''chart'', ''app''),
                          (''track'', ''canary''), (''value-files'', ''values.yml''),
                          (''values'', ''{\"a\":1,\"b\":\"two\"}'')],
       deployment = JUndefined,
       jsonParse = parserOf ''{\"a\":1,\"b\":\"two\"}''
                     (JObj [(''a'', JNum 1), (''b'', JStr ''two'')]),
       kubeconfigFile = [],
       writeFileOk = True,
       runProcess = (\<lambda>history tool args. Exited 0) \<rparr>"

definition valuesResolved :: resolved where
  "valuesResolved =
     \<lparr> r_track = JStr ''canary'', r_appName = JStr ''web'', r_release = JStr ''web-canary'',
       r_namespace = JStr ''prod'', r_chart = JStr ''/usr/src/charts/app'',
       r_chartVersion = JStr [], r_values = JObj [(''a'', JNum 1), (''b'', JStr ''two'')],
       r_task = JStr [], r_version = JStr [], r_valueFiles = [JStr ''values.yml''],
       r_removeCanary = JStr [], r_timeout = JStr [], r_dryRun = JStr [],
       r_atomic = JBool True \<rparr>"

text \<open>A canary configuration with every optional flag set and atomic switched off.\<close>

definition canaryResolved :: resolved where
  "canaryResolved =
     \<lparr> r_track = JStr ''canary'', r_appName = JStr ''web'', r_release = JStr ''web-canary'',
       r_namespace = JStr ''prod'', r_chart = JStr ''charts/web'',
       r_chartVersion = JStr ''1.2.3'', r_values = JStr [],
       r_task = JStr [], r_version = JStr ''abc'', r_valueFiles = [],
       r_removeCanary = JStr [], r_timeout = JStr ''5m'', r_dryRun = JStr ''true'',
       r_atomic = JStr ''false'' \<rparr>"

text \<open>Value files as a JSON text with an empty entry; plugins as a JSON text with a
  number.\<close>

definition filesText :: string where
  "filesText = ''[\"a.yml\",\"\",\"b.yml\"]''"

definition filesParser :: parser where
  "filesParser = parserOf filesText (JArr [JStr ''a.yml'', JStr [], JStr ''b.yml''])"

definition numberParser :: parser where
  "numberParser = parserOf ''[1]'' (JArr [JNum 1])"

text \<open>A step with one plugin and a token, in a deployment, where every process exits
  with code 1.\<close>

definition pluginEnv :: env where
  "pluginEnv =
     \<lparr> inputs = inputsOf [(''release'', ''web''), (''namespace'', ''prod''), (''chart'', ''app''),
                          (''plugins'', ''https://x/y''), (''token'', ''t'')],
       deployment = JObj [(''id'', JNum 7), (''payload'', JObj [])],
       jsonParse = (\<lambda>s. None),
       kubeconfigFile = [],
       writeFileOk = True,
       runProcess = (\<lambda>history tool args. Exited 1) \<rparr>"

text \<open>A step with a repository and no release.\<close>

definition repoEnv :: env where
  "repoEnv =
     \<lparr> inputs = inputsOf [(''namespace'', ''prod''), (''chart'', ''app''),
                          (''repo'', ''https://charts.example.com''), (''repo-alias'', ''ex'')],
       deployment = JUndefined,
       jsonParse = (\<lambda>s. None),
       kubeconfigFile = [],
       writeFileOk = True,
       runProcess = (\<lambda>history tool args. Exited 0) \<rparr>"

text \<open>A step with no release, no repository and no plugin.\<close>

definition missingEnv :: env where
  "missingEnv =
     \<lparr> inputs = inputsOf [(''namespace'', ''prod''), (''chart'', ''app'')],
       deployment = JUndefined,
       jsonParse = (\<lambda>s. None),
       kubeconfigFile = [],
       writeFileOk = True,
       runProcess = (\<lambda>history tool args. Exited 0) \<rparr>"

text \<open>A removal whose delete process exits with code 1.\<close>

definition removeEnv :: env where
  "removeEnv =
     \<lparr> inputs = inputsOf [(''release'', ''web''), (''namespace'', ''prod''), (''chart'', ''app''),
                          (''task'', ''remove'')],
       deployment = JUndefined,
       jsonParse = (\<lambda>s. None),
       kubeconfigFile = [],
       writeFileOk = True,
       runProcess = (\<lambda>history tool args. Exited 1) \<rparr>"

text \<open>A removal on the canary track that removes the canary first; the n-th process of
  the run exits with code n - 1.\<close>

definition removeCanaryEnv :: env where
  "removeCanaryEnv =
     \<lparr> inputs = inputsOf [(''release'', ''web''), (''namespace'', ''prod''), (''chart'', ''app''),
                          (''track'', ''canary''), (''task'', ''remove''),
                          (''remove-canary'', ''true'')],
       deployment = JUndefined,
       jsonParse = (\<lambda>s. None),
       kubeconfigFile = [],
       writeFileOk = True,
       runProcess = (\<lambda>history tool args. Exited (int (length history))) \<rparr>"

definition removeCanaryResolved :: resolved where
  "removeCanaryResolved =
     \<lparr> r_track = JStr ''canary'', r_appName = JStr ''web'', r_release = JStr ''web-canary'',
       r_namespace = JStr ''prod'', r_chart = JStr ''/usr/src/charts/app'',
       r_chartVersion = JStr [], r_values = JStr [],
       r_task = JStr ''remove'', r_version = JStr [], r_valueFiles = [],
       r_removeCanary = JStr ''true'', r_timeout = JStr [], r_dryRun = JStr [],
       r_atomic = JBool True \<rparr>"

section \<open>Properties\<close>

lemmas eval_defs =
  getInput_def deployInputs_def deployArgs_def bindE_def inputsOf_def parserOf_def orElse_def
  releaseName_def chartName_def getValues_def getValueFiles_def decodeList_def
  baseArgs_def optionArgs_def flagIf_def fileArgs_def setArgs_def canaryArgs_def
  atomicArgs_def indexed_def debugAll_def debugParams_def canaryName_def

subsection \<open>The input resolver\<close>

lemma getInput_required:
  "getInput e name True = Inr v \<Longrightarrow> getInput e name False = Inr v"
  by (auto simp: getInput_def Let_def split: sum.splits if_splits)

lemma deployInputs_fields:
  assumes "deployInputs e = Inr r"
  shows "\<exists>track0 chart0 values0 files0 atomic0.
           getInput e ''track'' False = Inr track0
         \<and> getInput e ''release'' True = Inr (r_appName r)
         \<and> getInput e ''namespace'' True = Inr (r_namespace r)
         \<and> getInput e ''chart'' True = Inr chart0
         \<and> getInput e ''chart_version'' False = Inr (r_chartVersion r)
         \<and> getInput e ''values'' False = Inr values0
         \<and> getInput e ''task'' False = Inr (r_task r)
         \<and> getInput e ''version'' False = Inr (r_version r)
         \<and> getInput e ''value_files'' False = Inr files0
         \<and> getInput e ''remove_canary'' False = Inr (r_removeCanary r)
         \<and> getInput e ''timeout'' False = Inr (r_timeout r)
         \<and> getInput e ''atomic'' False = Inr atomic0
         \<and> r_track r = orElse track0 (JStr ''stable'')
         \<and> releaseName (r_appName r) (r_track r) = Inr (r_release r)
         \<and> r_chart r = chartName chart0
         \<and> r_values r = getValues (jsonParse e) values0
         \<and> r_valueFiles r = getValueFiles (jsonParse e) files0
         \<and> r_dryRun r = JStr (inputs e ''dry-run'')
         \<and> r_atomic r = orElse atomic0 (JBool True)"
  using assms
  unfolding deployInputs_def bindE_def
  by (auto split: sum.splits)

text \<open>
  C1, as the claim states it, fails for \<^verbatim>\<open>dry-run\<close>: line 256 reads it with
  \<^verbatim>\<open>core.getInput\<close>, which never looks at the deployment. With \<^verbatim>\<open>dry-run\<close> supplied as a
  parameter and as a field of the deployment at both levels, the resolver would give the
  field, and the deployment uses the parameter.
\<close>

theorem dry_run_ignores_context:
  "getInput dryRunEnv ''dry-run'' False = Inr (JStr ''ctx'')
   \<and> getInput dryRunEnv ''dry_run'' False = Inr (JStr ''ctx'')
   \<and> map_sum id r_dryRun (deployInputs dryRunEnv) = Inr (JStr ''param'')"
  by (simp add: dryRunEnv_def getInput_def deployInputs_def bindE_def inputsOf_def orElse_def
      releaseName_def)

text \<open>
  C1, amended. For every input name resolved through \<^verbatim>\<open>getInput\<close>, in a run whose
  deployment carries a payload: a truthy field of the payload is the resolved value; when
  the payload has none, a truthy field of the deployment object is; the explicit
  parameter of the same name does not matter. Every constant of a deployment other than
  \<^verbatim>\<open>dryRun\<close> is resolved this way (track, chart, values, value files and atomic are
  normalised afterwards).
\<close>

theorem getInput_context_precedence:
  assumes "truthy (deployment e)"
    and "getProp (deployment e) ''payload'' = Inr payload"
    and "getProp payload name = Inr pv"
    and "getProp (deployment e) name = Inr dv"
  shows "(truthy pv \<longrightarrow> getInput e name False = Inr pv)
       \<and> (\<not> truthy pv \<and> truthy dv \<longrightarrow> getInput e name False = Inr dv)
       \<and> (\<forall>r. deployInputs e = Inr r \<longrightarrow>
            (\<exists>track0 chart0 values0 files0 atomic0.
               getInput e ''track'' False = Inr track0
             \<and> getInput e ''release'' False = Inr (r_appName r)
             \<and> getInput e ''namespace'' False = Inr (r_namespace r)
             \<and> getInput e ''chart'' False = Inr chart0
             \<and> getInput e ''chart_version'' False = Inr (r_chartVersion r)
             \<and> getInput e ''values'' False = Inr values0
             \<and> getInput e ''task'' False = Inr (r_task r)
             \<and> getInput e ''version'' False = Inr (r_version r)
             \<and> getInput e ''value_files'' False = Inr files0
             \<and> getInput e ''remove_canary'' False = Inr (r_removeCanary r)
             \<and> getInput e ''timeout'' False = Inr (r_timeout r)
             \<and> getInput e ''atomic'' False = Inr atomic0
             \<and> r_track r = orElse track0 (JStr ''stable'')
             \<and> r_chart r = chartName chart0
             \<and> r_values r = getValues (jsonParse e) values0
             \<and> r_valueFiles r = getValueFiles (jsonParse e) files0
             \<and> r_atomic r = orElse atomic0 (JBool True)))"
proof (intro conjI allI impI)
  show "getInput e name False = Inr pv" if "truthy pv"
    using assms that by (simp add: getInput_def)
  show "getInput e name False = Inr dv" if "\<not> truthy pv \<and> truthy dv"
    using assms that by (simp add: getInput_def)
next
  fix r assume "deployInputs e = Inr r"
  from deployInputs_fields [OF this] obtain track0 chart0 values0 files0 atomic0 where
    f: "getInput e ''track'' False = Inr track0"
       "getInput e ''release'' True = Inr (r_appName r)"
       "getInput e ''namespace'' True = Inr (r_namespace r)"
       "getInput e ''chart'' True = Inr chart0"
       "getInput e ''chart_version'' False = Inr (r_chartVersion r)"
       "getInput e ''values'' False = Inr values0"
       "getInput e ''task'' False = Inr (r_task r)"
       "getInput e ''version'' False = Inr (r_version r)"
       "getInput e ''value_files'' False = Inr files0"
       "getInput e ''remove_canary'' False = Inr (r_removeCanary r)"
       "getInput e ''timeout'' False = Inr (r_timeout r)"
       "getInput e ''atomic'' False = Inr atomic0"
       "r_track r = orElse track0 (JStr ''stable'')"
       "r_chart r = chartName chart0"
       "r_values r = getValues (jsonParse e) values0"
       "r_valueFiles r = getValueFiles (jsonParse e) files0"
       "r_atomic r = orElse atomic0 (JBool True)"
    by blast
  show "\<exists>track0 chart0 values0 files0 atomic0.
               getInput e ''track'' False = Inr track0
             \<and> getInput e ''release'' False = Inr (r_appName r)
             \<and> getInput e ''namespace'' False = Inr (r_namespace r)
             \<and> getInput e ''chart'' False = Inr chart0
             \<and> getInput e ''chart_version'' False = Inr (r_chartVersion r)
             \<and> getInput e ''values'' False = Inr values0
             \<and> getInput e ''task'' False = Inr (r_task r)
             \<and> getInput e ''version'' False = Inr (r_version r)
             \<and> getInput e ''value_files'' False = Inr files0
             \<and> getInput e ''remove_canary'' False = Inr (r_removeCanary r)
             \<and> getInput e ''timeout'' False = Inr (r_timeout r)
             \<and> getInput e ''atomic'' False = Inr atomic0
             \<and> r_track r = orElse track0 (JStr ''stable'')
             \<and> r_chart r = chartName chart0
             \<and> r_values r = getValues (jsonParse e) values0
             \<and> r_valueFiles r = getValueFiles (jsonParse e) files0
             \<and> r_atomic r = orElse atomic0 (JBool True)"
    using f getInput_required by blast
qed

theorem getInput_context_precedence_witness:
  "getInput overrideEnv ''task'' False = Inr (JStr ''remove'')
   \<and> getInput overrideEnv ''namespace'' False = Inr (JStr ''staging'')
   \<and> map_sum id r_task (deployInputs overrideEnv) = Inr (JStr ''remove'')
   \<and> map_sum id r_namespace (deployInputs overrideEnv) = Inr (JStr ''staging'')"
proof -
  have d: "truthy (deployment overrideEnv)" by (simp add: overrideEnv_def)
  have p: "getProp (deployment overrideEnv) ''payload'' =
             Inr (JObj [(''task'', JStr ''remove''), (''namespace'', JStr [])])"
    by (simp add: overrideEnv_def)
  have t: "getInput overrideEnv ''task'' False = Inr (JStr ''remove'')"
    using getInput_context_precedence [OF d p, of "''task''" "JStr ''remove''" "JStr ''noop''"]
    by (simp add: overrideEnv_def)
  have n: "getInput overrideEnv ''namespace'' False = Inr (JStr ''staging'')"
    using getInput_context_precedence [OF d p, of "''namespace''" "JStr []" "JStr ''staging''"]
    by (simp add: overrideEnv_def)
  have "map_sum id r_task (deployInputs overrideEnv) = Inr (JStr ''remove'')"
       "map_sum id r_namespace (deployInputs overrideEnv) = Inr (JStr ''staging'')"
    by (simp_all add: overrideEnv_def getInput_def deployInputs_def bindE_def inputsOf_def
        orElse_def releaseName_def)
  with t n show ?thesis by simp
qed

subsection \<open>Normalisation\<close>

text \<open>
  C5 fails on the code. A plugin entry that is neither a string nor an object becomes
  undefined at line 92, and the filter of line 93 then reads \<^verbatim>\<open>f.url\<close> of it: a TypeError,
  for the JSON text \<^verbatim>\<open>[1]\<close>, for a list with a boolean after a good entry, and for a null
  entry alike.
\<close>

theorem getPlugins_raises_on_non_object:
  "getPlugins numberParser (JStr ''[1]'') = Inl TypeError
   \<and> getPlugins numberParser (JArr [JStr ''https://x/y'', JBool True]) = Inl TypeError
   \<and> getPlugins numberParser (JArr [JNull]) = Inl TypeError"
  by (simp add: getPlugins_def decodeList_def numberParser_def parserOf_def pluginEntry_def
      pluginKeep_def)

text \<open>
  C10. Where the input decodes to a sequence, the value files are exactly its truthy
  entries, in order; every other decoded value gives no value file. So the empty string
  is never a value file, and every value file is truthy.
\<close>

theorem getValueFiles_truthy_entries:
  "(\<forall>xs. decodeList parse files = JArr xs \<longrightarrow>
       getValueFiles parse files = filter truthy xs)
   \<and> ((\<forall>xs. decodeList parse files \<noteq> JArr xs) \<longrightarrow> getValueFiles parse files = [])
   \<and> JStr [] \<notin> set (getValueFiles parse files)
   \<and> list_all truthy (getValueFiles parse files)"
  by (auto simp: getValueFiles_def list_all_iff split: jsval.splits)

theorem getValueFiles_truthy_entries_witness:
  "getValueFiles filesParser (JStr filesText) = [JStr ''a.yml'', JStr ''b.yml'']
   \<and> getValueFiles filesParser (JStr ''values.yml'') = [JStr ''values.yml'']
   \<and> getValueFiles filesParser (JObj [(''a'', JNum 1)]) = []"
  using getValueFiles_truthy_entries [of filesParser "JStr filesText"]
        getValueFiles_truthy_entries [of filesParser "JObj [(''a'', JNum 1)]"]
  by (simp add: filesParser_def filesText_def parserOf_def decodeList_def getValueFiles_def)

subsection \<open>The argument vector of the upgrade\<close>

lemma showInt_1: "showInt 1 = ''1''"
  by (simp add: showInt_def showNat.simps [of "Suc 0"])

text \<open>
  C4 fails on the code. With \<^verbatim>\<open>atomic: true\<close> as a parameter the resolved value is the
  string \<^verbatim>\<open>"true"\<close>, which is not \<^verbatim>\<open>=== true\<close>: no \<^verbatim>\<open>--atomic\<close>. With atomic set to false
  in the deployment payload, the falsy field is skipped, the absent parameter is the
  empty string, and \<^verbatim>\<open>|| true\<close> appends \<^verbatim>\<open>--atomic\<close>.
\<close>

theorem atomic_flag_misses_explicit_values:
  "bindE (deployInputs atomicEnv) deployArgs =
     Inr [JStr ''upgrade'', JStr ''web'', JStr ''/usr/src/charts/app'', JStr ''--install'',
          JStr ''--wait'', JStr ''--namespace=prod'', JStr ''--set=app.name=web'']
   \<and> bindE (deployInputs atomicFalseEnv) deployArgs =
     Inr [JStr ''upgrade'', JStr ''web'', JStr ''/usr/src/charts/app'', JStr ''--install'',
          JStr ''--wait'', JStr ''--namespace=prod'', JStr ''--set=app.name=web'',
          JStr ''--atomic'']"
  by (simp add: atomicEnv_def atomicFalseEnv_def eval_defs)

text \<open>
  C7. When the values input is the mapping \<^verbatim>\<open>{"a":1,"b":"two"}\<close>, or a string that
  \<^verbatim>\<open>JSON.parse\<close> decodes to it, the argument vector of the upgrade is built exactly when
  the base arguments, the option arguments and the \<^verbatim>\<open>-f\<close> arguments are (no conversion of
  theirs throws), and it is then: the base and option arguments, one \<^verbatim>\<open>-f\<close> argument per
  value file, \<^verbatim>\<open>--set a=1\<close> and \<^verbatim>\<open>--set b=two\<close> in this order, then the canary flags and
  \<^verbatim>\<open>--atomic\<close> where they apply.
\<close>

theorem values_set_flags_in_order:
  assumes "deployInputs e = Inr r"
    and "getInput e ''values'' False = Inr v"
    and "v = JObj [(''a'', JNum 1), (''b'', JStr ''two'')]
         \<or> (\<exists>s. v = JStr s
                \<and> jsonParse e s = Some (JObj [(''a'', JNum 1), (''b'', JStr ''two'')]))"
  shows "deployArgs r =
           bindE (baseArgs r) (\<lambda>base.
           bindE (optionArgs r) (\<lambda>options.
           bindE (fileArgs (r_valueFiles r)) (\<lambda>files.
             Inr ((base @ options)
                  @ files
                  @ [JStr ''--set a=1'', JStr ''--set b=two'']
                  @ canaryArgs r @ atomicArgs r))))"
proof -
  from deployInputs_fields [OF assms(1)] assms(2)
  have "r_values r = getValues (jsonParse e) v" by auto
  with assms(3) have "r_values r = JObj [(''a'', JNum 1), (''b'', JStr ''two'')]"
    by (auto simp: getValues_def)
  then show ?thesis
    by (simp add: deployArgs_def bindE_def setArgs_def showInt_1 split: sum.splits)
qed

lemma valuesEnv_inputs: "deployInputs valuesEnv = Inr valuesResolved"
  by (simp add: valuesEnv_def valuesResolved_def eval_defs)

theorem values_set_flags_in_order_witness:
  "deployInputs valuesEnv = Inr valuesResolved
   \<and> deployArgs valuesResolved =
     Inr [JStr ''upgrade'', JStr ''web-canary'', JStr ''/usr/src/charts/app'', JStr ''--install'',
          JStr ''--wait'', JStr ''--namespace=prod'', JStr ''--set=app.name=web'',
          JStr ''-f values.yml'', JStr ''--set a=1'', JStr ''--set b=two'',
          JStr ''--set=service.enabled=false'', JStr ''--set=ingress.enabled=false'',
          JStr ''--atomic'']"
proof -
  have v: "getInput valuesEnv ''values'' False = Inr (JStr ''{\"a\":1,\"b\":\"two\"}'')"
    by (simp add: valuesEnv_def getInput_def inputsOf_def)
  have p: "jsonParse valuesEnv ''{\"a\":1,\"b\":\"two\"}'' =
             Some (JObj [(''a'', JNum 1), (''b'', JStr ''two'')])"
    by (simp add: valuesEnv_def parserOf_def)
  show ?thesis
    using values_set_flags_in_order [OF valuesEnv_inputs v] p
    by (simp add: valuesEnv_inputs valuesResolved_def baseArgs_def optionArgs_def flagIf_def
        fileArgs_def canaryArgs_def atomicArgs_def bindE_def)
qed

lemma deployArgs_built:
  "(\<exists>args. deployArgs r = Inr args) =
     (\<exists>base options files kvs sets.
        baseArgs r = Inr base \<and> optionArgs r = Inr options
        \<and> fileArgs (r_valueFiles r) = Inr files
        \<and> entries (r_values r) = Inr kvs \<and> setArgs kvs = Inr sets)"
  by (auto simp: deployArgs_def bindE_def split: sum.splits)

text \<open>
  C8. For every resolved configuration on the canary track, every argument vector of the
  upgrade holds both \<^verbatim>\<open>--set=service.enabled=false\<close> and \<^verbatim>\<open>--set=ingress.enabled=false\<close>,
  whatever the other fields are; and a vector is built exactly when the values have
  entries (they are not null or undefined) and no conversion of a field to a string
  throws.
\<close>

theorem canary_flags_present:
  assumes "r_track r = JStr ''canary''"
  shows "(\<forall>args. deployArgs r = Inr args \<longrightarrow>
            JStr ''--set=service.enabled=false'' \<in> set args
            \<and> JStr ''--set=ingress.enabled=false'' \<in> set args)
       \<and> ((\<exists>args. deployArgs r = Inr args) =
            (\<exists>base options files kvs sets.
               baseArgs r = Inr base \<and> optionArgs r = Inr options
               \<and> fileArgs (r_valueFiles r) = Inr files
               \<and> entries (r_values r) = Inr kvs \<and> setArgs kvs = Inr sets))"
proof (intro conjI allI impI)
  fix args
  assume "deployArgs r = Inr args"
  with assms show "JStr ''--set=service.enabled=false'' \<in> set args"
    and "JStr ''--set=ingress.enabled=false'' \<in> set args"
    by (auto simp: deployArgs_def bindE_def canaryArgs_def split: sum.splits)
next
  show "(\<exists>args. deployArgs r = Inr args) =
            (\<exists>base options files kvs sets.
               baseArgs r = Inr base \<and> optionArgs r = Inr options
               \<and> fileArgs (r_valueFiles r) = Inr files
               \<and> entries (r_values r) = Inr kvs \<and> setArgs kvs = Inr sets)"
    by (rule deployArgs_built)
qed

lemma canaryResolved_args:
  "deployArgs canaryResolved =
     Inr [JStr ''upgrade'', JStr ''web-canary'', JStr ''charts/web'', JStr ''--install'',
          JStr ''--wait'', JStr ''--namespace=prod'', JStr ''--dry-run'',
          JStr ''--set=app.name=web'', JStr ''--set=app.version=abc'',
          JStr ''--version=1.2.3'', JStr ''--timeout=5m'',
          JStr ''--set=service.enabled=false'', JStr ''--set=ingress.enabled=false'']"
  by (simp add: canaryResolved_def eval_defs)

theorem canary_flags_present_witness:
  "r_track canaryResolved = JStr ''canary''
   \<and> (\<exists>args. deployArgs canaryResolved = Inr args)
   \<and> JStr ''--set=service.enabled=false'' \<in> set (projr (deployArgs canaryResolved))
   \<and> JStr ''--set=ingress.enabled=false'' \<in> set (projr (deployArgs canaryResolved))"
proof -
  have t: "r_track canaryResolved = JStr ''canary''" by (simp add: canaryResolved_def)
  from canary_flags_present [OF t] canaryResolved_args t show ?thesis by simp
qed

subsection \<open>The delete command\<close>

text \<open>
  C9. For all namespace and release strings, the delete command is
  \<^verbatim>\<open>["delete","-n",namespace,release]\<close> when the tool variant is \<^verbatim>\<open>"helm3"\<close>, and
  \<^verbatim>\<open>["delete","--purge",release]\<close> for any other variant, whatever value that is.
\<close>

theorem deleteCmd_by_variant:
  "deleteCmd helm (JStr namespace) (JStr release) =
     (if helm = JStr ''helm3''
      then [JStr ''delete'', JStr ''-n'', JStr namespace, JStr release]
      else [JStr ''delete'', JStr ''--purge'', JStr release])"
  by (simp add: deleteCmd_def)

subsection \<open>Processes and the trace\<close>

lemma stepsD:
  "steps S a \<Longrightarrow> a w = (w', res) \<Longrightarrow>
     (\<exists>ext. trace w' = trace w @ ext \<and> c_site ` set ext \<subseteq> S \<and> quiet ext res
            \<and> strict ext)
     \<and> frame w w'"
  by (simp add: steps_def)

lemma steps_mono:
  assumes "steps S a" and "S \<subseteq> T"
  shows "steps T a"
  unfolding steps_def
proof (intro allI impI)
  fix w w' res
  assume "a w = (w', res)"
  from stepsD [OF assms(1) this] obtain ext where
    "trace w' = trace w @ ext" "c_site ` set ext \<subseteq> S" "quiet ext res" "strict ext"
    "frame w w'"
    by auto
  with assms(2) show "(\<exists>ext. trace w' = trace w @ ext \<and> c_site ` set ext \<subseteq> T \<and> quiet ext res
        \<and> strict ext)
      \<and> frame w w'"
    by auto
qed

lemma steps_ok: "steps S (ok v)"
  by (simp add: steps_def ok_def quiet_def frame_def strict_def)

lemma steps_raise: "steps S (raise err)"
  by (simp add: steps_def raise_def quiet_def frame_def strict_def)

lemma steps_liftE: "steps S (liftE m)"
  by (simp add: steps_def liftE_def quiet_def frame_def strict_def)

lemma steps_logError: "steps S (logError l)"
  by (auto simp: steps_def logError_def quiet_def frame_def strict_def)

lemma steps_exec:
  "s \<in> S \<Longrightarrow> (s = PluginInstall \<Longrightarrow> \<not> ign) \<Longrightarrow> steps S (exec e s tool args ign)"
  by (auto simp: steps_def exec_def Let_def quiet_def frame_def rejected_def strict_def
      split: outcome.splits if_splits)

lemma quiet_Inr: "quiet ext (Inr v) \<Longrightarrow> c \<in> set ext \<Longrightarrow> \<not> rejected c"
  by (cases ext rule: rev_cases) (auto simp: quiet_def)

lemma quiet_append:
  assumes "quiet ext1 (Inr v)" and "quiet ext2 res"
  shows "quiet (ext1 @ ext2) res"
proof (cases ext2 rule: rev_cases)
  case Nil
  with assms show ?thesis
    by (cases ext1 rule: rev_cases) (auto simp: quiet_def)
next
  case (snoc ys y)
  with assms quiet_Inr [OF assms(1)] show ?thesis
    by (auto simp: quiet_def butlast_append)
qed

lemma steps_andThen:
  assumes "steps S a" and "\<And>v. steps S (f v)"
  shows "steps S (andThen a f)"
  unfolding steps_def
proof (intro allI impI)
  fix w w' res
  assume run: "andThen a f w = (w', res)"
  obtain w1 r1 where a: "a w = (w1, r1)" by (cases "a w")
  from stepsD [OF assms(1) a] obtain ext1 where
    e1: "trace w1 = trace w @ ext1" "c_site ` set ext1 \<subseteq> S" "quiet ext1 r1" "frame w w1"
        "strict ext1"
    by auto
  show "(\<exists>ext. trace w' = trace w @ ext \<and> c_site ` set ext \<subseteq> S \<and> quiet ext res
          \<and> strict ext)
        \<and> frame w w'"
  proof (cases r1)
    case (Inl err)
    with run a have "w' = w1" "res = Inl err" by (auto simp: andThen_def)
    with e1 Inl show ?thesis by (auto simp: quiet_def)
  next
    case (Inr v)
    with run a have f: "f v w1 = (w', res)" by (auto simp: andThen_def)
    from stepsD [OF assms(2) f] obtain ext2 where
      e2: "trace w' = trace w1 @ ext2" "c_site ` set ext2 \<subseteq> S" "quiet ext2 res" "frame w1 w'"
          "strict ext2"
      by auto
    from e1 e2 Inr have "quiet (ext1 @ ext2) res" by (auto intro: quiet_append)
    moreover from e1 e2 have "strict (ext1 @ ext2)" by (auto simp: strict_def)
    ultimately show ?thesis using e1 e2
      by (intro conjI exI [of _ "ext1 @ ext2"]) (auto simp: frame_def)
  qed
qed

lemma steps_discard: "steps S a \<Longrightarrow> steps S (discard a)"
  unfolding discard_def by (intro steps_andThen steps_ok)

lemma steps_if: "steps S a \<Longrightarrow> steps S b \<Longrightarrow> steps S (if c then a else b)"
  by simp

lemmas steps_intros =
  steps_andThen steps_liftE steps_if steps_raise steps_ok steps_exec steps_logError steps_discard

lemma steps_addRepo: "steps {RepoAdd, RepoUpdate} (addRepo e helm)"
  unfolding addRepo_def by (intro steps_intros) simp_all

lemma steps_installEach: "steps {PluginInstall, PluginCleanup} (installEach e helm plugins)"
proof (induction plugins)
  case Nil
  show ?case by (simp add: steps_ok)
next
  case (Cons plugin rest)
  show ?case
    unfolding installEach.simps by (intro steps_intros Cons.IH) simp_all
qed

lemma steps_installPlugins: "steps {PluginInstall, PluginCleanup} (installPlugins e helm)"
  unfolding installPlugins_def by (intro steps_intros steps_installEach)

lemma steps_deploy: "steps deploySites (deploy e helm)"
  unfolding deploy_def deploySites_def by (intro steps_intros) simp_all

lemma steps_setup:
  "steps setupSites (andThen (discard (addRepo e helm)) (\<lambda>_. discard (installPlugins e helm)))"
  unfolding setupSites_def
  by (intro steps_andThen steps_discard steps_mono [OF steps_addRepo]
      steps_mono [OF steps_installPlugins]) simp_all

subsection \<open>The run as a whole\<close>

lemma status_fields [simp]:
  "trace (status e s w) = trace w"
  "statuses (status e s w) = statuses w @ [s]"
  "failed (status e s w) = failed w"
  "notified (status e s w) =
     (if inputs e ''token'' \<noteq> [] \<and> truthy (deployment e) then notified w @ [s] else notified w)"
  by (auto simp: status_def Let_def)

lemma world0_fields [simp]:
  "trace world0 = []" "statuses world0 = []" "notified world0 = []" "failed world0 = None"
  by (simp_all add: world0_def)

lemma runCommands_commands:
  "runCommands (commands e) helm =
     andThen (andThen (discard (addRepo e helm)) (\<lambda>_. discard (installPlugins e helm)))
       (\<lambda>_. discard (deploy e helm))"
  by (rule ext)
     (simp add: commands_def andThen_def discard_def ok_def split: prod.splits sum.splits)

text \<open>Either the run throws before the deployment, with processes of the first two
  stages only, or it reaches the deployment after processes that all succeeded.\<close>

lemma runBody_cases:
  assumes "runBody e w = (w', res)"
  shows "(\<exists>ext err. trace w' = trace w @ ext \<and> c_site ` set ext \<subseteq> setupSites
            \<and> quiet ext res \<and> res = Inl err \<and> frame w w')
       \<or> (\<exists>helm0 w2 ext res'. getInput e ''helm'' False = Inr helm0
            \<and> trace w2 = trace w @ ext \<and> c_site ` set ext \<subseteq> setupSites
            \<and> (\<forall>c \<in> set ext. \<not> rejected c) \<and> frame w w2
            \<and> deploy e (orElse helm0 (JStr ''helm3'')) w2 = (w', res')
            \<and> res = map_sum id (\<lambda>_. ()) res')"
proof (cases "kubeconfigFile e \<noteq> [] \<and> \<not> writeFileOk e")
  case True
  with assms have "w' = w" "res = Inl WriteFailed"
    by (auto simp: runBody_def andThen_def raise_def)
  then show ?thesis by (auto simp: quiet_def frame_def)
next
  case False
  then have body: "runBody e w =
      andThen (liftE (getInput e ''helm'' False))
        (\<lambda>helm0. andThen (liftE (debugAll [orElse helm0 (JStr ''helm3'')]))
           (\<lambda>_. runCommands (commands e) (orElse helm0 (JStr ''helm3'')))) w"
    by (auto simp: runBody_def andThen_def ok_def)
  show ?thesis
  proof (cases "getInput e ''helm'' False")
    case (Inl err)
    with assms body have "w' = w" "res = Inl err"
      by (auto simp: andThen_def liftE_def)
    then show ?thesis by (auto simp: quiet_def frame_def)
  next
    case (Inr helm0)
    define helm where "helm = orElse helm0 (JStr ''helm3'')"
    show ?thesis
    proof (cases "debugAll [helm]")
      case (Inl err)
      with assms body Inr have "w' = w" "res = Inl err"
        by (auto simp: andThen_def liftE_def helm_def)
      then show ?thesis by (auto simp: quiet_def frame_def)
    next
      case dbg: (Inr u)
      define stages where
        "stages = andThen (discard (addRepo e helm)) (\<lambda>_. discard (installPlugins e helm))"
      from assms body Inr dbg
      have all: "andThen stages (\<lambda>_. discard (deploy e helm)) w = (w', res)"
        by (simp add: andThen_def [of "liftE _"] liftE_def runCommands_commands helm_def
            stages_def)
      obtain w2 r2 where s: "stages w = (w2, r2)" by (cases "stages w")
      have "steps setupSites stages" unfolding stages_def by (rule steps_setup)
      from stepsD [OF this s] obtain ext where
        e: "trace w2 = trace w @ ext" "c_site ` set ext \<subseteq> setupSites" "quiet ext r2"
           "frame w w2"
        by auto
      show ?thesis
      proof (cases r2)
        case (Inl err)
        with all s have "w' = w2" "res = Inl err" by (auto simp: andThen_def)
        with e Inl show ?thesis by auto
      next
        case r2: (Inr u)
        obtain w3 r3 where d: "deploy e helm w2 = (w3, r3)" by (cases "deploy e helm w2")
        with all s r2 have "w' = w3" "res = map_sum id (\<lambda>_. ()) r3"
          by (auto simp: andThen_def discard_def ok_def split: sum.splits)
        moreover from e r2 have "\<forall>c \<in> set ext. \<not> rejected c"
          by (auto dest: quiet_Inr)
        ultimately show ?thesis
          using e d Inr unfolding helm_def by blast
      qed
    qed
  qed
qed

lemma steps_runBody: "steps UNIV (runBody e)"
  unfolding runBody_def runCommands_commands
  by (intro steps_intros steps_mono [OF steps_addRepo] steps_mono [OF steps_installPlugins]
      steps_mono [OF steps_deploy]) simp_all

text \<open>What \<^verbatim>\<open>run\<close> makes of the result of its body.\<close>

lemma run_result:
  assumes "runBody e (status e ''pending'' world0) = (w', res)"
  shows "trace (run e) = trace w'"
    and "statuses (run e) = [''pending'', if isl res then ''failure'' else ''success'']"
    and "failed (run e) = (case res of Inl err \<Rightarrow> Some err | Inr _ \<Rightarrow> None)"
    and "notified (run e) =
           (if inputs e ''token'' \<noteq> [] \<and> truthy (deployment e)
            then [''pending'', if isl res then ''failure'' else ''success''] else [])"
proof -
  from stepsD [OF steps_runBody assms]
  have "frame (status e ''pending'' world0) w'" by simp
  then have f: "statuses w' = [''pending'']" "failed w' = None"
    "notified w' = (if inputs e ''token'' \<noteq> [] \<and> truthy (deployment e) then [''pending''] else [])"
    by (simp_all add: frame_def)
  show "trace (run e) = trace w'"
    using assms by (cases res) (simp_all add: run_def)
  show "statuses (run e) = [''pending'', if isl res then ''failure'' else ''success'']"
    using assms f by (cases res) (simp_all add: run_def)
  show "failed (run e) = (case res of Inl err \<Rightarrow> Some err | Inr _ \<Rightarrow> None)"
    using assms f by (cases res) (simp_all add: run_def)
  show "notified (run e) =
           (if inputs e ''token'' \<noteq> [] \<and> truthy (deployment e)
            then [''pending'', if isl res then ''failure'' else ''success''] else [])"
    using assms f by (cases res) (simp_all add: run_def)
qed

subsection \<open>A failing plugin install\<close>

lemma only_last:
  assumes "\<forall>c \<in> set (butlast xs). \<not> P c" and "i < length xs" and "P (xs ! i)"
  shows "Suc i = length xs \<and> xs \<noteq> [] \<and> last xs = xs ! i"
proof -
  have "\<not> i < length xs - 1"
  proof
    assume "i < length xs - 1"
    then have lt: "i < length (butlast xs)" by simp
    from lt have "butlast xs ! i \<in> set (butlast xs)" by (rule nth_mem)
    moreover from lt have "butlast xs ! i = xs ! i" by (rule nth_butlast)
    ultimately have "xs ! i \<in> set (butlast xs)" by (simp only:)
    with assms show False by auto
  qed
  with assms(2) have "Suc i = length xs" by simp
  then show ?thesis using assms(2) by (cases xs rule: rev_cases) auto
qed

text \<open>A call whose promise is rejected is the last call of the run, which fails.\<close>

lemma rejected_install_is_last:
  assumes "i < length (trace (run e))"
    and "c_site (trace (run e) ! i) = PluginInstall"
    and "rejected (trace (run e) ! i)"
  shows "Suc i = length (trace (run e))
       \<and> (\<forall>c \<in> set (trace (run e)). c_site c \<notin> {CanaryDelete, ReleaseDelete, Upgrade})
       \<and> statuses (run e) = [''pending'', ''failure'']
       \<and> notified (run e) =
           (if inputs e ''token'' \<noteq> [] \<and> truthy (deployment e)
            then [''pending'', ''failure''] else [])
       \<and> failed (run e) = Some ProcessFailed"
proof -
  obtain w' res where body: "runBody e (status e ''pending'' world0) = (w', res)"
    by (cases "runBody e (status e ''pending'' world0)")
  note r = run_result [OF body]
  from runBody_cases [OF body] show ?thesis
  proof (elim disjE exE conjE)
    fix ext err
    assume e: "trace w' = trace (status e ''pending'' world0) @ ext"
      "c_site ` set ext \<subseteq> setupSites" "quiet ext res" "res = Inl err"
    then have t: "trace (run e) = ext" using r by simp
    from e(3) have "\<forall>c \<in> set (butlast ext). \<not> rejected c" by (simp add: quiet_def)
    from only_last [OF this] assms t
    have l: "Suc i = length ext" "ext \<noteq> []" "rejected (last ext)" by auto
    with e(3) have "res = Inl ProcessFailed" by (simp add: quiet_def)
    moreover from e(2) have "\<forall>c \<in> set ext. c_site c \<notin> {CanaryDelete, ReleaseDelete, Upgrade}"
      by (auto simp: setupSites_def)
    ultimately show ?thesis using r t l by simp
  next
    fix helm0 w2 ext res'
    assume e: "trace w2 = trace (status e ''pending'' world0) @ ext"
      "\<forall>c \<in> set ext. \<not> rejected c"
      "deploy e (orElse helm0 (JStr ''helm3'')) w2 = (w', res')"
    from stepsD [OF steps_deploy e(3)] obtain ext3 where
      d: "trace w' = trace w2 @ ext3" "c_site ` set ext3 \<subseteq> deploySites" by auto
    with e r have t: "trace (run e) = ext @ ext3" by simp
    with assms(1) have "trace (run e) ! i \<in> set ext \<union> set ext3"
      by (metis nth_mem set_append)
    with e(2) assms(2,3) d(2) have False by (auto simp: deploySites_def)
    then show ?thesis ..
  qed
qed

text \<open>No plugin install is started with \<^verbatim>\<open>ignoreReturnCode\<close>.\<close>

lemma run_strict: "strict (trace (run e))"
proof -
  obtain w' res where body: "runBody e (status e ''pending'' world0) = (w', res)"
    by (cases "runBody e (status e ''pending'' world0)")
  from stepsD [OF steps_runBody body] obtain ext where
    "trace w' = trace (status e ''pending'' world0) @ ext" "strict ext"
    by auto
  with run_result(1) [OF body] show ?thesis by simp
qed

text \<open>
  C6. If a plugin install process fails (it cannot be started, or it exits with a code
  other than zero), it is the last process the run starts: no call follows it, and no
  delete or upgrade call is in the trace at all. \<^verbatim>\<open>status\<close> is called with \<^verbatim>\<open>"pending"\<close>
  and then once with \<^verbatim>\<open>"failure"\<close>; the requests sent to the status service are these two
  when the run has a token and a deployment, and none otherwise.
\<close>

theorem plugin_install_failure_stops_run:
  assumes "i < length (trace (run e))"
    and "c_site (trace (run e) ! i) = PluginInstall"
    and "c_outcome (trace (run e) ! i) \<noteq> Exited 0"
  shows "Suc i = length (trace (run e))
       \<and> (\<forall>c \<in> set (trace (run e)). c_site c \<notin> {CanaryDelete, ReleaseDelete, Upgrade})
       \<and> statuses (run e) = [''pending'', ''failure'']
       \<and> notified (run e) =
           (if inputs e ''token'' \<noteq> [] \<and> truthy (deployment e)
            then [''pending'', ''failure''] else [])
       \<and> failed (run e) = Some ProcessFailed"
proof -
  from assms(1) have "trace (run e) ! i \<in> set (trace (run e))" by simp
  with run_strict [of e] assms(2) have "\<not> c_ignore (trace (run e) ! i)"
    by (simp add: strict_def)
  with assms(3) have "rejected (trace (run e) ! i)"
    by (cases "c_outcome (trace (run e) ! i)") (simp_all add: rejected_def)
  from rejected_install_is_last [OF assms(1,2) this] show ?thesis .
qed

lemma pluginEnv_run:
  "trace (run pluginEnv) =
     [\<lparr>c_site = PluginInstall, c_tool = JStr ''helm3'',
       c_args = [JStr ''plugin'', JStr ''install'', JStr ''https://x/y''],
       c_ignore = False, c_outcome = Exited 1\<rparr>]"
  by (simp add: run_def runBody_def commands_def addRepo_def installPlugins_def getPlugins_def
      decodeList_def pluginEntry_def pluginKeep_def deploy_def exec_def andThen_def discard_def
      ok_def raise_def liftE_def logError_def status_def world0_def getInput_def inputsOf_def
      orElse_def flagIf_def pluginEnv_def Let_def bindE_def debugAll_def)

theorem plugin_install_failure_stops_run_witness:
  "trace (run pluginEnv) =
     [\<lparr>c_site = PluginInstall, c_tool = JStr ''helm3'',
       c_args = [JStr ''plugin'', JStr ''install'', JStr ''https://x/y''],
       c_ignore = False, c_outcome = Exited 1\<rparr>]
   \<and> statuses (run pluginEnv) = [''pending'', ''failure'']
   \<and> notified (run pluginEnv) = [''pending'', ''failure'']
   \<and> failed (run pluginEnv) = Some ProcessFailed"
proof -
  have "0 < length (trace (run pluginEnv))"
    "c_site (trace (run pluginEnv) ! 0) = PluginInstall"
    "c_outcome (trace (run pluginEnv) ! 0) \<noteq> Exited 0"
    by (simp_all add: pluginEnv_run)
  from plugin_install_failure_stops_run [OF this] pluginEnv_run show ?thesis
    by (simp add: pluginEnv_def inputsOf_def)
qed

subsection \<open>Missing required inputs\<close>

lemmas run_defs =
  run_def runBody_def commands_def addRepo_def installPlugins_def getPlugins_def
  decodeList_def pluginEntry_def pluginKeep_def deploy_def exec_def andThen_def discard_def
  ok_def raise_def liftE_def logError_def status_def world0_def getInput_def inputsOf_def
  orElse_def flagIf_def Let_def deployInputs_def bindE_def deployArgs_def deleteCmd_def
  releaseName_def chartName_def getValues_def getValueFiles_def indexed_def
  baseArgs_def optionArgs_def fileArgs_def setArgs_def canaryArgs_def atomicArgs_def
  debugAll_def debugParams_def canaryName_def

lemma getInput_True:
  "getInput e x True =
     (case getInput e x False of
        Inl err \<Rightarrow> Inl err
      | Inr v \<Rightarrow> if truthy v then Inr v else Inl (MissingRequiredInput x))"
  by (auto simp: getInput_def Let_def split: sum.splits)

lemma getProp_truthy: "truthy d \<Longrightarrow> \<exists>u. getProp d x = Inr u"
  by (cases d) auto

lemma getProp_any_name: "getProp p x = Inr u \<Longrightarrow> \<exists>u'. getProp p y = Inr u'"
  by (cases p) auto

lemma getInput_total:
  assumes "getInput e name False = Inr v"
  shows "\<exists>u. getInput e x False = Inr u"
proof (cases "truthy (deployment e)")
  case False
  then show ?thesis by (simp add: getInput_def)
next
  case True
  from getProp_truthy [OF True] obtain dn where dn: "getProp (deployment e) name = Inr dn" by blast
  from getProp_truthy [OF True] obtain dx where dx: "getProp (deployment e) x = Inr dx" by blast
  from getProp_truthy [OF True] obtain p where p: "getProp (deployment e) ''payload'' = Inr p"
    by blast
  from assms True dn p obtain pn where "getProp p name = Inr pn"
    by (auto simp: getInput_def Let_def split: sum.splits)
  from getProp_any_name [OF this] obtain px where "getProp p x = Inr px" by blast
  with True dx p show ?thesis by (simp add: getInput_def Let_def)
qed

lemma toStr_error:
  "toStr v = Inl err \<Longrightarrow> err = TypeError"
  "toStrs vs = Inl err \<Longrightarrow> err = TypeError"
  by (induction v and vs arbitrary: err and err rule: toStr_toStrs.induct)
     (auto simp: bindE_def split: sum.splits if_splits)

lemma releaseName_error: "releaseName name track = Inl err \<Longrightarrow> err = TypeError"
  by (auto simp: releaseName_def bindE_def split: if_splits sum.splits dest: toStr_error)

text \<open>With a required input that resolves falsy, the inputs of a deployment do not
  resolve: a required input is reported missing, or the release name of line 246 cannot
  be built.\<close>

lemma deployInputs_missing:
  assumes "name \<in> {''release'', ''namespace'', ''chart''}"
    and "getInput e name False = Inr v" and "\<not> truthy v"
  shows "\<exists>err. deployInputs e = Inl err
           \<and> ((\<exists>n. n \<in> {''release'', ''namespace'', ''chart''}
                  \<and> err = MissingRequiredInput n
                  \<and> getInput e n True = Inl (MissingRequiredInput n))
              \<or> (err = TypeError
                  \<and> (\<exists>a t. getInput e ''release'' True = Inr a
                        \<and> getInput e ''track'' False = Inr t
                        \<and> releaseName a (orElse t (JStr ''stable'')) = Inl TypeError)))"
proof -
  from getInput_total [OF assms(2)] obtain t a ns c where
    g: "getInput e ''track'' False = Inr t" "getInput e ''release'' False = Inr a"
       "getInput e ''namespace'' False = Inr ns" "getInput e ''chart'' False = Inr c"
    by metis
  from assms g have falsy: "\<not> truthy a \<or> \<not> truthy ns \<or> \<not> truthy c" by auto
  show ?thesis
  proof (cases "truthy a")
    case False
    with g have "getInput e ''release'' True = Inl (MissingRequiredInput ''release'')"
      "deployInputs e = Inl (MissingRequiredInput ''release'')"
      by (simp_all add: getInput_True deployInputs_def bindE_def)
    then show ?thesis by blast
  next
    case a: True
    with g have ga: "getInput e ''release'' True = Inr a" by (simp add: getInput_True)
    show ?thesis
    proof (cases "releaseName a (orElse t (JStr ''stable''))")
      case (Inl err)
      then have rn: "releaseName a (orElse t (JStr ''stable'')) = Inl TypeError"
        using releaseName_error by blast
      with g ga have "deployInputs e = Inl TypeError"
        by (simp add: deployInputs_def bindE_def)
      with g ga rn show ?thesis by blast
    next
      case (Inr rel)
      show ?thesis
      proof (cases "truthy ns")
        case False
        with g ga Inr have
          "getInput e ''namespace'' True = Inl (MissingRequiredInput ''namespace'')"
          "deployInputs e = Inl (MissingRequiredInput ''namespace'')"
          by (simp_all add: getInput_True deployInputs_def bindE_def)
        then show ?thesis by blast
      next
        case True
        with a falsy have "\<not> truthy c" by simp
        with g ga Inr True have
          "getInput e ''chart'' True = Inl (MissingRequiredInput ''chart'')"
          "deployInputs e = Inl (MissingRequiredInput ''chart'')"
          by (simp_all add: getInput_True deployInputs_def bindE_def)
        then show ?thesis by blast
      qed
    qed
  qed
qed

text \<open>
  C2, amended. If release, namespace or chart resolves to a falsy value, \<^verbatim>\<open>deploy\<close> throws
  before starting any process: \<open>MissingRequiredInput n\<close> for a required input \<open>n\<close> that
  fails to resolve, or, where the release is given and the release name of line 246
  cannot be built from it, the TypeError of that conversion. Where the two commands
  before \<^verbatim>\<open>deploy\<close> complete, the loop of commands throws the same error; and the run as a
  whole starts no delete and no upgrade process, calls \<^verbatim>\<open>status\<close> with \<^verbatim>\<open>"failure"\<close> and is
  marked failed. Nothing is said of the processes of \<^verbatim>\<open>addRepo\<close> and \<^verbatim>\<open>installPlugins\<close>,
  which run first.
\<close>

theorem missing_required_input_aborts_deploy:
  assumes "name \<in> {''release'', ''namespace'', ''chart''}"
    and "getInput e name False = Inr v" and "\<not> truthy v"
  shows "\<exists>err.
         ((\<exists>n. n \<in> {''release'', ''namespace'', ''chart''}
              \<and> err = MissingRequiredInput n
              \<and> getInput e n True = Inl (MissingRequiredInput n))
          \<or> (err = TypeError
              \<and> (\<exists>a t. getInput e ''release'' True = Inr a
                    \<and> getInput e ''track'' False = Inr t
                    \<and> releaseName a (orElse t (JStr ''stable'')) = Inl TypeError)))
       \<and> (\<forall>helm w. deploy e helm w = (w, Inl err))
       \<and> (\<forall>helm w w1. runCommands (take 2 (commands e)) helm w = (w1, Inr ()) \<longrightarrow>
             runCommands (commands e) helm w = (w1, Inl err))
       \<and> (\<forall>c \<in> set (trace (run e)). c_site c \<notin> {CanaryDelete, ReleaseDelete, Upgrade})
       \<and> statuses (run e) = [''pending'', ''failure'']
       \<and> failed (run e) \<noteq> None"
proof -
  from deployInputs_missing [OF assms] obtain err where
    n: "deployInputs e = Inl err"
       "(\<exists>n. n \<in> {''release'', ''namespace'', ''chart''}
              \<and> err = MissingRequiredInput n
              \<and> getInput e n True = Inl (MissingRequiredInput n))
          \<or> (err = TypeError
              \<and> (\<exists>a t. getInput e ''release'' True = Inr a
                    \<and> getInput e ''track'' False = Inr t
                    \<and> releaseName a (orElse t (JStr ''stable'')) = Inl TypeError))"
    by blast
  have d: "deploy e helm w = (w, Inl err)" for helm w
    using n(1) by (simp add: deploy_def andThen_def liftE_def)
  have c: "runCommands (commands e) helm w = (w1, Inl err)"
    if "runCommands (take 2 (commands e)) helm w = (w1, Inr ())" for helm w w1
    using that
    by (auto simp: commands_def andThen_def discard_def ok_def d split: prod.splits sum.splits)
  obtain w' res where body: "runBody e (status e ''pending'' world0) = (w', res)"
    by (cases "runBody e (status e ''pending'' world0)")
  note r = run_result [OF body]
  have "c_site ` set (trace w') \<subseteq> setupSites \<and> isl res"
    using runBody_cases [OF body]
  proof (elim disjE exE conjE)
    fix ext err'
    assume "trace w' = trace (status e ''pending'' world0) @ ext"
      "c_site ` set ext \<subseteq> setupSites" "res = Inl err'"
    then show ?thesis by simp
  next
    fix helm0 w2 ext res'
    assume e: "trace w2 = trace (status e ''pending'' world0) @ ext"
      "c_site ` set ext \<subseteq> setupSites"
      "deploy e (orElse helm0 (JStr ''helm3'')) w2 = (w', res')"
      "res = map_sum id (\<lambda>_. ()) res'"
    with d have "w' = w2" "res' = Inl err" by simp_all
    with e show ?thesis by simp
  qed
  then have "\<forall>c \<in> set (trace (run e)). c_site c \<notin> {CanaryDelete, ReleaseDelete, Upgrade}"
    "statuses (run e) = [''pending'', ''failure'']" "failed (run e) \<noteq> None"
    using r by (auto simp: setupSites_def split: sum.splits)
  with n(2) d c show ?thesis by blast
qed

lemma missingEnv_run:
  "trace (run missingEnv) = []"
  "failed (run missingEnv) = Some (MissingRequiredInput ''release'')"
  by (simp_all add: run_defs missingEnv_def)

theorem missing_required_input_aborts_deploy_witness:
  "getInput missingEnv ''release'' False = Inr (JStr [])
   \<and> trace (run missingEnv) = []
   \<and> statuses (run missingEnv) = [''pending'', ''failure'']
   \<and> failed (run missingEnv) = Some (MissingRequiredInput ''release'')"
proof -
  have g: "getInput missingEnv ''release'' False = Inr (JStr [])"
    by (simp add: missingEnv_def getInput_def inputsOf_def)
  have "''release'' \<in> {''release'', ''namespace'', ''chart''}" "\<not> truthy (JStr [])"
    by simp_all
  from missing_required_input_aborts_deploy [OF this(1) g this(2)]
  have "statuses (run missingEnv) = [''pending'', ''failure'']" by blast
  with g missingEnv_run show ?thesis by simp
qed

text \<open>
  C2, as the claim states it, fails: the required inputs are resolved in \<^verbatim>\<open>deploy\<close>, the
  last of the three commands. With a repository configured and no release, the repository
  is added and updated before the run fails on the missing release.
\<close>

theorem repo_added_before_missing_input:
  "map c_site (trace (run repoEnv)) = [RepoAdd, RepoUpdate]
   \<and> map c_args (trace (run repoEnv)) =
       [[JStr ''repo'', JStr ''add'', JStr ''ex'', JStr ''https://charts.example.com''],
        [JStr ''repo'', JStr ''update'']]
   \<and> failed (run repoEnv) = Some (MissingRequiredInput ''release'')"
  by (simp add: run_defs repoEnv_def)

subsection \<open>Removing a release\<close>

lemma exec_cases:
  assumes "exec e s tool args ign w = (w', res)"
  obtains c where "trace w' = trace w @ [c]" "c_site c = s" "c_tool c = tool"
    "c_args c = args" "c_ignore c = ign"
    "res = (case c_outcome c of
              NotStarted \<Rightarrow> Inl ProcessFailed
            | Exited code \<Rightarrow> if code \<noteq> 0 \<and> \<not> ign then Inl ProcessFailed else Inr code)"
proof -
  let ?c = "\<lparr>c_site = s, c_tool = tool, c_args = args, c_ignore = ign,
             c_outcome = runProcess e (trace w) tool args\<rparr>"
  from assms have "trace w' = trace w @ [?c]"
    "res = (case c_outcome ?c of
              NotStarted \<Rightarrow> Inl ProcessFailed
            | Exited code \<Rightarrow> if code \<noteq> 0 \<and> \<not> ign then Inl ProcessFailed else Inr code)"
    by (auto simp: exec_def Let_def split: outcome.splits if_splits)
  then show ?thesis by (intro that [of ?c]) simp_all
qed

text \<open>What a deployment with task remove adds to the trace.\<close>

lemma deploy_remove:
  assumes "deployInputs e = Inr r" and "r_task r = JStr ''remove''"
    and "deploy e helm w = (w', res)"
  shows "\<exists>ext. trace w' = trace w @ ext
           \<and> (\<forall>c \<in> set ext. c_site c \<noteq> Upgrade)
           \<and> (\<forall>c \<in> set (butlast ext). c_site c = CanaryDelete)
           \<and> (\<forall>c \<in> set ext. c_site c = CanaryDelete \<longrightarrow>
                c_ignore c \<and> c_tool c = helm
                \<and> (\<exists>canary. canaryName (r_appName r) = Inr canary
                      \<and> c_args c = deleteCmd helm (r_namespace r) canary))
           \<and> (\<not> isl res \<longrightarrow> ext \<noteq> [] \<and> c_site (last ext) = ReleaseDelete)
           \<and> (ext \<noteq> [] \<and> c_site (last ext) = ReleaseDelete \<longrightarrow>
                c_ignore (last ext) \<and> c_tool (last ext) = helm
                \<and> c_args (last ext) = deleteCmd helm (r_namespace r) (r_release r)
                \<and> res = (case c_outcome (last ext) of
                           Exited code \<Rightarrow> Inr code
                         | NotStarted \<Rightarrow> Inl ProcessFailed))"
proof (cases "bindE (debugParams r) (\<lambda>_. deployArgs r)")
  case (Inl err)
  with assms have "w' = w" "res = Inl err"
    by (auto simp: deploy_def andThen_def liftE_def bindE_def split: sum.splits)
  then show ?thesis by (intro exI [of _ "[]"]) simp
next
  case (Inr args)
  then have pre: "deploy e helm w =
      andThen (if truthy (r_removeCanary r)
               then andThen (liftE (canaryName (r_appName r))) (\<lambda>canary.
                      discard (exec e CanaryDelete helm
                        (deleteCmd helm (r_namespace r) canary) True))
               else ok ())
        (\<lambda>_. exec e ReleaseDelete helm (deleteCmd helm (r_namespace r) (r_release r)) True) w"
    using assms(1,2)
    by (auto simp: deploy_def andThen_def liftE_def bindE_def split: sum.splits)
  let ?delete = "exec e ReleaseDelete helm (deleteCmd helm (r_namespace r) (r_release r)) True"
  show ?thesis
  proof (cases "truthy (r_removeCanary r)")
    case False
    with assms(3) pre have "?delete w = (w', res)"
      by (simp add: andThen_def ok_def)
    from exec_cases [OF this] obtain c where
      c: "trace w' = trace w @ [c]" "c_site c = ReleaseDelete" "c_tool c = helm"
         "c_args c = deleteCmd helm (r_namespace r) (r_release r)" "c_ignore c = True"
         "res = (case c_outcome c of
                   NotStarted \<Rightarrow> Inl ProcessFailed
                 | Exited code \<Rightarrow> if code \<noteq> 0 \<and> \<not> True then Inl ProcessFailed else Inr code)"
      by blast
    then show ?thesis
      by (intro exI [of _ "[c]"]) (auto split: outcome.splits)
  next
    case True
    show ?thesis
    proof (cases "canaryName (r_appName r)")
      case (Inl err)
      with assms(3) pre True have "w' = w" "res = Inl err"
        by (simp_all add: andThen_def liftE_def)
      then show ?thesis by (intro exI [of _ "[]"]) simp
    next
      case cn: (Inr canary)
      let ?canary = "exec e CanaryDelete helm (deleteCmd helm (r_namespace r) canary) True"
      obtain w1 r1 where k: "?canary w = (w1, r1)" by (cases "?canary w")
      from exec_cases [OF k] obtain c1 where
        c1: "trace w1 = trace w @ [c1]" "c_site c1 = CanaryDelete" "c_tool c1 = helm"
            "c_args c1 = deleteCmd helm (r_namespace r) canary" "c_ignore c1 = True"
        by blast
      show ?thesis
      proof (cases r1)
        case (Inl err)
        with assms(3) pre True cn k have "w' = w1" "res = Inl err"
          by (simp_all add: andThen_def liftE_def discard_def)
        with c1 cn show ?thesis by (intro exI [of _ "[c1]"]) simp
      next
        case r1: (Inr code)
        with assms(3) pre True cn k have "?delete w1 = (w', res)"
          by (simp add: andThen_def liftE_def discard_def ok_def)
        from exec_cases [OF this] obtain c where
          c: "trace w' = trace w1 @ [c]" "c_site c = ReleaseDelete" "c_tool c = helm"
             "c_args c = deleteCmd helm (r_namespace r) (r_release r)" "c_ignore c = True"
             "res = (case c_outcome c of
                       NotStarted \<Rightarrow> Inl ProcessFailed
                     | Exited code \<Rightarrow>
                         if code \<noteq> 0 \<and> \<not> True then Inl ProcessFailed else Inr code)"
          by blast
        with c1 cn show ?thesis
          by (intro exI [of _ "[c1, c]"]) (auto split: outcome.splits)
      qed
    qed
  qed
qed

lemma sites_butlast:
  "\<forall>c \<in> set xs. c_site c \<in> S \<Longrightarrow> \<forall>c \<in> set (butlast xs). c_site c \<in> S"
  by (meson in_set_butlastD)

lemma sites_last:
  "\<forall>c \<in> set xs. c_site c \<in> S \<Longrightarrow> xs \<noteq> [] \<Longrightarrow> c_site (last xs) \<in> S"
  by (meson last_in_set)

text \<open>
  C3, amended. In a run whose inputs resolve with task \<^verbatim>\<open>"remove"\<close>: no upgrade is
  started; the delete of line 318 is started at most once, as the last process of the
  run, with \<^verbatim>\<open>ignoreReturnCode\<close> set and the arguments of \<^verbatim>\<open>deleteCmd\<close> for the resolved
  namespace and release; a run that ends in success has started it; and once it is
  started, the run ends in success whatever code the process exits with, and in failure
  only when the process could not be started. The only other deletes of the run are those
  of line 311, for the release named after the application with \<^verbatim>\<open>-canary\<close> appended: on
  the canary track that is the primary release, and the same command may run twice.
\<close>

theorem remove_run_ignores_exit_code:
  assumes "deployInputs e = Inr r" and "r_task r = JStr ''remove''"
  shows "(\<forall>c \<in> set (trace (run e)). c_site c \<noteq> Upgrade)
       \<and> (\<forall>c \<in> set (butlast (trace (run e))). c_site c \<noteq> ReleaseDelete)
       \<and> (\<forall>c \<in> set (trace (run e)). c_site c = CanaryDelete \<longrightarrow>
            c_ignore c
            \<and> (\<exists>canary. canaryName (r_appName r) = Inr canary
                  \<and> c_args c = deleteCmd (c_tool c) (r_namespace r) canary))
       \<and> (statuses (run e) = [''pending'', ''success''] \<longrightarrow>
            trace (run e) \<noteq> [] \<and> c_site (last (trace (run e))) = ReleaseDelete)
       \<and> (trace (run e) \<noteq> [] \<and> c_site (last (trace (run e))) = ReleaseDelete \<longrightarrow>
            c_ignore (last (trace (run e)))
            \<and> c_args (last (trace (run e))) =
                deleteCmd (c_tool (last (trace (run e)))) (r_namespace r) (r_release r)
            \<and> (case c_outcome (last (trace (run e))) of
                 Exited code \<Rightarrow>
                   statuses (run e) = [''pending'', ''success''] \<and> failed (run e) = None
               | NotStarted \<Rightarrow>
                   statuses (run e) = [''pending'', ''failure'']
                   \<and> failed (run e) = Some ProcessFailed))"
    (is "?P1 \<and> ?P2 \<and> ?PC \<and> ?P3 \<and> ?P4")
proof -
  obtain w' res where body: "runBody e (status e ''pending'' world0) = (w', res)"
    by (cases "runBody e (status e ''pending'' world0)")
  note r = run_result [OF body]
  have up: "Upgrade \<notin> setupSites" and rd: "ReleaseDelete \<notin> setupSites"
    and cd: "CanaryDelete \<notin> setupSites"
    by (simp_all add: setupSites_def)
  from runBody_cases [OF body] show ?thesis
  proof (elim disjE exE conjE)
    fix ext err
    assume e: "trace w' = trace (status e ''pending'' world0) @ ext"
      "c_site ` set ext \<subseteq> setupSites" "res = Inl err"
    from e(1) r(1) have t: "trace (run e) = ext" by simp
    from e(2) have s: "\<forall>c \<in> set ext. c_site c \<in> setupSites" by blast
    from r(2) e(3) have f: "statuses (run e) = [''pending'', ''failure'']" by simp
    have 1: ?P1 unfolding t using s up by metis
    have 2: ?P2 unfolding t using sites_butlast [OF s] rd by metis
    have 3: ?P3 unfolding f by simp
    have 4: ?P4 unfolding t using sites_last [OF s] rd by metis
    have c: ?PC unfolding t using s cd by metis
    show ?thesis by (rule conjI [OF 1 conjI [OF 2 conjI [OF c conjI [OF 3 4]]]])
  next
    fix helm0 w2 ext res'
    assume e: "trace w2 = trace (status e ''pending'' world0) @ ext"
      "c_site ` set ext \<subseteq> setupSites"
      "deploy e (orElse helm0 (JStr ''helm3'')) w2 = (w', res')"
      "res = map_sum id (\<lambda>_. ()) res'"
    define helm where "helm = orElse helm0 (JStr ''helm3'')"
    from deploy_remove [OF assms e(3)] obtain ext3 where
      dd: "trace w' = trace w2 @ ext3
         \<and> (\<forall>c \<in> set ext3. c_site c \<noteq> Upgrade)
         \<and> (\<forall>c \<in> set (butlast ext3). c_site c = CanaryDelete)
         \<and> (\<not> isl res' \<longrightarrow> ext3 \<noteq> [] \<and> c_site (last ext3) = ReleaseDelete)
         \<and> (ext3 \<noteq> [] \<and> c_site (last ext3) = ReleaseDelete \<longrightarrow>
            c_ignore (last ext3) \<and> c_tool (last ext3) = helm
            \<and> c_args (last ext3) = deleteCmd helm (r_namespace r) (r_release r)
            \<and> res' = (case c_outcome (last ext3) of
                        Exited code \<Rightarrow> Inr code
                      | NotStarted \<Rightarrow> Inl ProcessFailed))"
      and dc: "\<forall>c \<in> set ext3. c_site c = CanaryDelete \<longrightarrow>
                c_ignore c \<and> c_tool c = helm
                \<and> (\<exists>canary. canaryName (r_appName r) = Inr canary
                      \<and> c_args c = deleteCmd helm (r_namespace r) canary)"
      unfolding helm_def by blast
    note d = conjunct1 [OF dd] conjunct1 [OF conjunct2 [OF dd]]
      conjunct1 [OF conjunct2 [OF conjunct2 [OF dd]]]
      conjunct1 [OF conjunct2 [OF conjunct2 [OF conjunct2 [OF dd]]]]
      conjunct2 [OF conjunct2 [OF conjunct2 [OF conjunct2 [OF dd]]]]
    from e(1) d(1) r(1) have t: "trace (run e) = ext @ ext3" by simp
    from e(2) have s: "\<forall>c \<in> set ext. c_site c \<in> setupSites" by blast
    have isl: "isl res = isl res'" using e(4) by (cases res') simp_all
    have 1: ?P1
    proof
      fix c assume "c \<in> set (trace (run e))"
      then have "c \<in> set ext \<or> c \<in> set ext3" unfolding t by simp
      then show "c_site c \<noteq> Upgrade" using s d(2) up by metis
    qed
    have 2: ?P2
    proof (cases "ext3 = []")
      case True
      then have "trace (run e) = ext" using t by simp
      then show ?thesis using sites_butlast [OF s] rd by metis
    next
      case False
      then have b: "butlast (trace (run e)) = ext @ butlast ext3"
        using t by (simp add: butlast_append)
      show ?thesis
      proof
        fix c assume "c \<in> set (butlast (trace (run e)))"
        then have "c \<in> set ext \<or> c \<in> set (butlast ext3)" unfolding b by simp
        then show "c_site c \<noteq> ReleaseDelete"
        proof
          assume "c \<in> set ext"
          then show ?thesis using s rd by metis
        next
          assume "c \<in> set (butlast ext3)"
          then have "c_site c = CanaryDelete" using d(3) by blast
          then show ?thesis by simp
        qed
      qed
    qed
    have 3: ?P3
    proof
      assume "statuses (run e) = [''pending'', ''success'']"
      with r(2) have "\<not> isl res" by (simp split: if_splits)
      with isl d(4) have "ext3 \<noteq> []" "c_site (last ext3) = ReleaseDelete" by simp_all
      then show "trace (run e) \<noteq> [] \<and> c_site (last (trace (run e))) = ReleaseDelete"
        unfolding t by simp
    qed
    have 4: ?P4
    proof
      assume l: "trace (run e) \<noteq> [] \<and> c_site (last (trace (run e))) = ReleaseDelete"
      have ne: "ext3 \<noteq> []"
      proof
        assume n: "ext3 = []"
        with t l have "ext \<noteq> []" "c_site (last ext) = ReleaseDelete" by simp_all
        with sites_last [OF s] rd show False by metis
      qed
      with t have last: "last (trace (run e)) = last ext3" by simp
      from l ne d(5) have
        p: "c_ignore (last ext3)" "c_tool (last ext3) = helm"
           "c_args (last ext3) = deleteCmd helm (r_namespace r) (r_release r)"
           "res' = (case c_outcome (last ext3) of
                      Exited code \<Rightarrow> Inr code
                    | NotStarted \<Rightarrow> Inl ProcessFailed)"
        unfolding last by simp_all
      show "c_ignore (last (trace (run e)))
            \<and> c_args (last (trace (run e))) =
                deleteCmd (c_tool (last (trace (run e)))) (r_namespace r) (r_release r)
            \<and> (case c_outcome (last (trace (run e))) of
                 Exited code \<Rightarrow>
                   statuses (run e) = [''pending'', ''success''] \<and> failed (run e) = None
               | NotStarted \<Rightarrow>
                   statuses (run e) = [''pending'', ''failure'']
                   \<and> failed (run e) = Some ProcessFailed)"
      proof (cases "c_outcome (last ext3)")
        case (Exited code)
        with p(4) e(4) have "res = Inr ()" by simp
        with r(2,3) p Exited show ?thesis by (simp add: last)
      next
        case NotStarted
        with p(4) e(4) have "res = Inl ProcessFailed" by simp
        with r(2,3) p NotStarted show ?thesis by (simp add: last)
      qed
    qed
    have c: ?PC
    proof (intro ballI impI)
      fix c assume "c \<in> set (trace (run e))" and k: "c_site c = CanaryDelete"
      then have "c \<in> set ext \<or> c \<in> set ext3" unfolding t by simp
      with s cd k have "c \<in> set ext3" by metis
      with dc k have "c_ignore c" "c_tool c = helm"
        "\<exists>canary. canaryName (r_appName r) = Inr canary
           \<and> c_args c = deleteCmd helm (r_namespace r) canary"
        by blast+
      then show "c_ignore c
            \<and> (\<exists>canary. canaryName (r_appName r) = Inr canary
                  \<and> c_args c = deleteCmd (c_tool c) (r_namespace r) canary)"
        by simp
    qed
    show ?thesis by (rule conjI [OF 1 conjI [OF 2 conjI [OF c conjI [OF 3 4]]]])
  qed
qed

lemma removeCanaryEnv_inputs: "deployInputs removeCanaryEnv = Inr removeCanaryResolved"
  by (simp add: run_defs removeCanaryEnv_def removeCanaryResolved_def)

lemma removeCanaryEnv_trace:
  "trace (run removeCanaryEnv) =
     [\<lparr>c_site = CanaryDelete, c_tool = JStr ''helm3'',
       c_args = [JStr ''delete'', JStr ''-n'', JStr ''prod'', JStr ''web-canary''],
       c_ignore = True, c_outcome = Exited 0\<rparr>,
      \<lparr>c_site = ReleaseDelete, c_tool = JStr ''helm3'',
       c_args = [JStr ''delete'', JStr ''-n'', JStr ''prod'', JStr ''web-canary''],
       c_ignore = True, c_outcome = Exited 1\<rparr>]"
  by (simp add: run_defs removeCanaryEnv_def)

theorem remove_run_ignores_exit_code_witness:
  "deployInputs removeCanaryEnv = Inr removeCanaryResolved
   \<and> r_task removeCanaryResolved = JStr ''remove''
   \<and> map c_site (trace (run removeCanaryEnv)) = [CanaryDelete, ReleaseDelete]
   \<and> map c_args (trace (run removeCanaryEnv)) =
       [[JStr ''delete'', JStr ''-n'', JStr ''prod'', JStr ''web-canary''],
        [JStr ''delete'', JStr ''-n'', JStr ''prod'', JStr ''web-canary'']]
   \<and> c_outcome (last (trace (run removeCanaryEnv))) = Exited 1
   \<and> statuses (run removeCanaryEnv) = [''pending'', ''success'']
   \<and> failed (run removeCanaryEnv) = None"
proof -
  have t: "r_task removeCanaryResolved = JStr ''remove''"
    by (simp add: removeCanaryResolved_def)
  from remove_run_ignores_exit_code [OF removeCanaryEnv_inputs t]
  show ?thesis
    using removeCanaryEnv_inputs t by (simp add: removeCanaryEnv_trace)
qed

text \<open>
  C3, as the claim states it, fails: the delete is started with \<^verbatim>\<open>ignoreReturnCode\<close>, and
  \<^verbatim>\<open>run\<close> does not look at what \<^verbatim>\<open>deploy\<close> returns. A delete that exits with code 1 ends in
  success.
\<close>

theorem remove_succeeds_on_nonzero_exit:
  "trace (run removeEnv) =
     [\<lparr>c_site = ReleaseDelete, c_tool = JStr ''helm3'',
       c_args = [JStr ''delete'', JStr ''-n'', JStr ''prod'', JStr ''web''],
       c_ignore = True, c_outcome = Exited 1\<rparr>]
   \<and> statuses (run removeEnv) = [''pending'', ''success'']
   \<and> failed (run removeEnv) = None"
  by (simp add: run_defs removeEnv_def)

subsection \<open>The upgrade call\<close>

text \<open>The upgrade is started with the vector of \<^verbatim>\<open>deployArgs\<close>, unchanged, and without
  \<^verbatim>\<open>ignoreReturnCode\<close>.\<close>

lemma deploy_upgrade_args:
  assumes "deployInputs e = Inr r" and "deploy e helm w = (w', res)"
  shows "\<exists>ext. trace w' = trace w @ ext
           \<and> (\<forall>c \<in> set ext. c_site c = Upgrade \<longrightarrow>
                deployArgs r = Inr (c_args c) \<and> c_tool c = helm \<and> \<not> c_ignore c)"
proof (cases "bindE (debugParams r) (\<lambda>_. deployArgs r)")
  case (Inl err)
  with assms have "w' = w"
    by (auto simp: deploy_def andThen_def liftE_def bindE_def split: sum.splits)
  then show ?thesis by (intro exI [of _ "[]"]) simp
next
  case (Inr args)
  then have args: "deployArgs r = Inr args"
    by (auto simp: bindE_def split: sum.splits)
  let ?first = "if truthy (r_removeCanary r)
               then andThen (liftE (canaryName (r_appName r))) (\<lambda>canary.
                      discard (exec e CanaryDelete helm
                        (deleteCmd helm (r_namespace r) canary) True))
               else ok ()"
  let ?last = "if r_task r = JStr ''remove''
       then exec e ReleaseDelete helm (deleteCmd helm (r_namespace r) (r_release r)) True
       else exec e Upgrade helm args False"
  from Inr assms(1) have pre: "deploy e helm w = andThen ?first (\<lambda>_. ?last) w"
    by (auto simp: deploy_def andThen_def liftE_def bindE_def split: sum.splits)
  obtain w1 r1 where f: "?first w = (w1, r1)" by (cases "?first w")
  have "steps {CanaryDelete} ?first"
    by (intro steps_intros) simp_all
  from stepsD [OF this f] obtain ext1 where
    e1: "trace w1 = trace w @ ext1" "c_site ` set ext1 \<subseteq> {CanaryDelete}" by auto
  then have n1: "\<forall>c \<in> set ext1. c_site c \<noteq> Upgrade" by auto
  show ?thesis
  proof (cases r1)
    case (Inl err)
    with assms(2) pre f have "w' = w1" by (simp add: andThen_def)
    with e1 n1 show ?thesis by (intro exI [of _ ext1]) simp
  next
    case r1: (Inr u)
    with assms(2) pre f have l: "?last w1 = (w', res)" by (simp add: andThen_def)
    show ?thesis
    proof (cases "r_task r = JStr ''remove''")
      case True
      with l have "exec e ReleaseDelete helm
          (deleteCmd helm (r_namespace r) (r_release r)) True w1 = (w', res)" by simp
      from exec_cases [OF this] obtain c where
        "trace w' = trace w1 @ [c]" "c_site c = ReleaseDelete" by blast
      with e1 n1 show ?thesis by (intro exI [of _ "ext1 @ [c]"]) simp
    next
      case False
      with l have "exec e Upgrade helm args False w1 = (w', res)" by simp
      from exec_cases [OF this] obtain c where
        "trace w' = trace w1 @ [c]" "c_tool c = helm" "c_args c = args" "c_ignore c = False"
        by blast
      with e1 n1 args show ?thesis by (intro exI [of _ "ext1 @ [c]"]) simp
    qed
  qed
qed

end
